theory Spec2Isabelle
  imports Main "HOL-Library.Word"
begin

unbundle bit_operations_syntax

section \<open>Buffers, errors and elementary reads\<close>

text \<open>
  A Node.js \<open>Buffer\<close> is a sequence of octets. Offsets, lengths and the numbers read
  from a buffer are JavaScript numbers that stay far below \<open>2^53\<close>; they are natural
  numbers here. JavaScript strings are sequences of code units; the names handled by
  the codec are made of code units below 256 (the decoder produces them from single
  octets, the encoder writes one octet per code unit), so a string is a \<open>char list\<close>.
\<close>

type_synonym byte = "8 word"
type_synonym bytes = "byte list"

text \<open>Every \<open>throw\<close> of the source is a value of this type.\<close>

datatype error =
    BadOffset           \<comment> \<open>\<open>Error("Bad offset: ...")\<close> of compileName\<close>
  | UnexpectedEnd       \<comment> \<open>\<open>RangeError\<close> of a \<open>readUInt*\<close> beyond the end of the buffer\<close>
  | InvalidPointer      \<comment> \<open>\<open>TypeError("invalid out-of-bounds pointer")\<close>\<close>
  | PointerCycle        \<comment> \<open>\<open>TypeError("circular pointer references discovered")\<close>\<close>
  | MalformedName       \<comment> \<open>\<open>Error("unexpected type of label, maybe data is corrupted")\<close>\<close>
  | InvalidRecordType   \<comment> \<open>\<open>Error("Invalid record type: ...")\<close> of typeToLabel\<close>
  | InvalidRecordClass  \<comment> \<open>\<open>Error("Invalid record class: ...")\<close> of classToLabel\<close>
  | NoSuchTypeLabel     \<comment> \<open>\<open>Error("No such type label: ...")\<close> of typeToNumber\<close>
  | NoSuchClassLabel    \<comment> \<open>\<open>Error("No such class label: ...")\<close> of classToNumber\<close>
  | MustBeString        \<comment> \<open>\<open>Error("Type must be string: ...")\<close>\<close>
  | InvalidEDNS         \<comment> \<open>\<open>Error("invalid EDNS: name of OPT pseudo-RR must be empty ...")\<close>\<close>
  | UnknownClass        \<comment> \<open>\<open>Error("Record #i in section ... has unknown class ...")\<close>\<close>
  | UnknownType         \<comment> \<open>\<open>Error("Record #i in section ... has unknown type ...")\<close>\<close>
  | UnknownRecord       \<comment> \<open>\<open>Error("Unknown record " + kind ...)\<close> of DNSRecord.parse\<close>
  | BadRDATA            \<comment> \<open>\<open>Error("Bad IN A data: ...")\<close>, \<open>Error("Bad IN AAAA data: ...")\<close>\<close>
  | UnknownOpcode       \<comment> \<open>\<open>Error("Unknown opcode: ...")\<close> of Encoder.message\<close>
  | UnsupportedType     \<comment> \<open>\<open>Error("Unsupported record type: ...")\<close> of Encoder.record\<close>
  | InvalidName         \<comment> \<open>\<open>TypeError("domain name ... is malformed near ...")\<close>, \<open>Error("invalid name in query")\<close>\<close>
  | BadRecordData       \<comment> \<open>\<open>Error("Bad A record data: ...")\<close>, \<open>Error("invalid segment in IPv6 address")\<close>\<close>
  | JsTypeError         \<comment> \<open>a \<open>TypeError\<close> raised by the runtime (property of undefined, wrong argument type)\<close>
  | JsRangeError        \<comment> \<open>a \<open>RangeError\<close> raised by a \<open>writeUInt*\<close> with a value out of range\<close>
  | Rejected            \<comment> \<open>a rejected promise\<close>

definition readUInt8 :: "bytes \<Rightarrow> nat \<Rightarrow> error + byte" where
  "readUInt8 buf i = (if i < length buf then Inr (buf ! i) else Inl UnexpectedEnd)"

definition readUInt16BE :: "bytes \<Rightarrow> nat \<Rightarrow> error + nat" where
  "readUInt16BE buf i =
     (if i + 2 \<le> length buf then Inr (unat (buf ! i) * 256 + unat (buf ! (i + 1)))
      else Inl UnexpectedEnd)"

definition readUInt32BE :: "bytes \<Rightarrow> nat \<Rightarrow> error + nat" where
  "readUInt32BE buf i =
     (if i + 4 \<le> length buf
      then Inr (unat (buf ! i) * 16777216 + unat (buf ! (i + 1)) * 65536
                + unat (buf ! (i + 2)) * 256 + unat (buf ! (i + 3)))
      else Inl UnexpectedEnd)"

text \<open>\<open>buf.slice(start, end)\<close> clamps both indices to the buffer and never throws.\<close>

definition slice :: "bytes \<Rightarrow> nat \<Rightarrow> nat \<Rightarrow> bytes" where
  "slice buf start end = take (end - start) (drop start buf)"

text \<open>
  \<open>buf.toString("ascii", start, end)\<close>: the octets of the clamped range, each with its
  highest bit cleared, one character per octet.
\<close>

definition toString_ascii :: "bytes \<Rightarrow> nat \<Rightarrow> nat \<Rightarrow> string" where
  "toString_ascii buf start end = map (\<lambda>b. char_of (unat (b AND 0x7F))) (slice buf start end)"

text \<open>\<open>segments.join(".")\<close>\<close>

fun join_dot :: "string list \<Rightarrow> string" where
  "join_dot [] = []"
| "join_dot [s] = s"
| "join_dot (s # t # ss) = s @ CHR ''.'' # join_dot (t # ss)"

section \<open>decode.js: compileName\<close>

text \<open>The local variables of \<open>compileName\<close> that its loop reads and writes.\<close>

record cn_state =
  buffer :: bytes
  cursor :: nat
  segments :: "string list"
  pointersCache :: "nat list"
  numOctets :: nat
  metPointer :: bool

datatype cn_result = Continue cn_state | Done cn_state | Fail error

text \<open>
  One iteration of \<open>while ( labelLength > 0 )\<close>. \<open>Done\<close> is the iteration that reads
  the zero-length label and so leaves the loop. \<open>numOctets = cursor - offset\<close> is only
  assigned while no pointer has been met, when the cursor has never moved backwards.
\<close>

definition cn_step :: "bytes \<Rightarrow> nat \<Rightarrow> cn_state \<Rightarrow> cn_result" where
  "cn_step fullMessage offset st =
     (case readUInt8 (buffer st) (cursor st) of
        Inl e \<Rightarrow> Fail e
      | Inr byte \<Rightarrow>
          let cursor1 = cursor st + 1 in
          if byte AND 0xC0 = 0xC0 then
            (case readUInt8 (buffer st) cursor1 of
               Inl e \<Rightarrow> Fail e
             | Inr low \<Rightarrow>
                 let pointer = unat (byte AND 0x3F) * 256 + unat low;
                     cursor2 = cursor1 + 1
                 in if pointer \<ge> length fullMessage then Fail InvalidPointer
                    else if pointer \<in> set (pointersCache st) then Fail PointerCycle
                    else Continue (st\<lparr>pointersCache := pointer # pointersCache st,
                                      numOctets := (if metPointer st then numOctets st
                                                    else cursor2 - offset),
                                      metPointer := True,
                                      buffer := fullMessage,
                                      cursor := pointer\<rparr>))
          else if byte AND 0xC0 = 0x00 then
            (let labelLength = unat (byte AND 0x3F) in
             if labelLength > 0
             then Continue (st\<lparr>segments := segments st
                                   @ [toString_ascii (buffer st) cursor1 (cursor1 + labelLength)],
                               cursor := cursor1 + labelLength\<rparr>)
             else Done (st\<lparr>cursor := cursor1\<rparr>))
          else Fail MalformedName)"

text \<open>
  The loop ends: a pointer that is followed is new and lies inside the message, and
  between two pointers the cursor only moves forward inside the current buffer.
\<close>

definition cn_measure :: "bytes \<Rightarrow> cn_state \<Rightarrow> nat \<times> nat" where
  "cn_measure fullMessage st =
     (card ({..<length fullMessage} - set (pointersCache st)), length (buffer st) - cursor st)"

function cn_loop :: "bytes \<Rightarrow> nat \<Rightarrow> cn_state \<Rightarrow> error + cn_state" where
  "cn_loop fullMessage offset st =
     (case cn_step fullMessage offset st of
        Continue st' \<Rightarrow> cn_loop fullMessage offset st'
      | Done st' \<Rightarrow> Inr st'
      | Fail e \<Rightarrow> Inl e)"
  by pat_completeness auto
termination
proof (relation "inv_image (less_than <*lex*> less_than) (\<lambda>(f, off, st). cn_measure f st)")
  show "wf (inv_image (less_than <*lex*> less_than) (\<lambda>(f, off, st). cn_measure f st))"
    by (intro wf_inv_image wf_lex_prod wf_less_than)
next
  fix fullMessage :: bytes and offset :: nat and st st' :: cn_state
  assume step: "cn_step fullMessage offset st = Continue st'"
  then have inb: "cursor st < length (buffer st)"
    by (auto simp: cn_step_def readUInt8_def split: if_splits)
  have "(cn_measure fullMessage st', cn_measure fullMessage st) \<in> less_than <*lex*> less_than"
  proof (cases "(buffer st ! cursor st) AND 0xC0 = 0xC0")
    case True
    with step inb obtain p where p: "p < length fullMessage" "p \<notin> set (pointersCache st)"
      "pointersCache st' = p # pointersCache st"
      by (auto simp: cn_step_def readUInt8_def Let_def split: if_splits)
    have "{..<length fullMessage} - set (pointersCache st')
          \<subset> {..<length fullMessage} - set (pointersCache st)"
      using p by auto
    then have "card ({..<length fullMessage} - set (pointersCache st'))
               < card ({..<length fullMessage} - set (pointersCache st))"
      by (intro psubset_card_mono) auto
    then show ?thesis by (simp add: cn_measure_def)
  next
    case False
    with step inb have "pointersCache st' = pointersCache st" "buffer st' = buffer st"
      "cursor st < cursor st'"
      by (auto simp: cn_step_def readUInt8_def Let_def split: if_splits)
    with inb show ?thesis by (simp add: cn_measure_def)
  qed
  then show "((fullMessage, offset, st'), (fullMessage, offset, st))
             \<in> inv_image (less_than <*lex*> less_than) (\<lambda>(f, off, st). cn_measure f st)"
    by simp
qed

declare cn_loop.simps [simp del]

text \<open>The variables as \<open>compileName\<close> initialises them; \<open>slice || fullMessage\<close>.\<close>

definition cn_init :: "bytes \<Rightarrow> bytes option \<Rightarrow> nat \<Rightarrow> cn_state" where
  "cn_init fullMessage slc offset =
     \<lparr>buffer = (case slc of Some s \<Rightarrow> s | None \<Rightarrow> fullMessage),
      cursor = offset, segments = [], pointersCache = [], numOctets = 1, metPointer = False\<rparr>"

text \<open>\<open>compileName( fullMessage, slice, offset )\<close> returns \<open>{ segments, length }\<close>.\<close>

definition compileName :: "bytes \<Rightarrow> bytes option \<Rightarrow> nat \<Rightarrow> error + (string list \<times> nat)" where
  "compileName fullMessage slc offset =
     (if offset > length fullMessage then Inl BadOffset
      else case cn_loop fullMessage offset (cn_init fullMessage slc offset) of
             Inl e \<Rightarrow> Inl e
           | Inr st \<Rightarrow> Inr (segments st,
                            if metPointer st then numOctets st else cursor st - offset))"

text \<open>\<open>uncompress( msg, sub, offset )\<close>\<close>

definition uncompress :: "bytes \<Rightarrow> bytes option \<Rightarrow> nat \<Rightarrow> error + string" where
  "uncompress msg sub offset =
     (case compileName msg sub offset of Inl e \<Rightarrow> Inl e | Inr (segs, n) \<Rightarrow> Inr (join_dot segs))"

text \<open>The states the loop of one call passes through.\<close>

inductive cn_reach :: "bytes \<Rightarrow> nat \<Rightarrow> cn_state \<Rightarrow> cn_state \<Rightarrow> bool"
  for fullMessage offset s where
    cn_reach_start: "cn_reach fullMessage offset s s"
  | cn_reach_step: "cn_reach fullMessage offset s t \<Longrightarrow> cn_step fullMessage offset t = Continue u
                    \<Longrightarrow> cn_reach fullMessage offset s u"

text \<open>The 14-bit offset of the compression pointer at a position of a buffer, if one is there.\<close>

definition pointer_at :: "bytes \<Rightarrow> nat \<Rightarrow> nat option" where
  "pointer_at buf c =
     (if c + 1 < length buf \<and> (buf ! c) AND 0xC0 = 0xC0
      then Some (unat ((buf ! c) AND 0x3F) * 256 + unat (buf ! (c + 1))) else None)"

text \<open>
  The position in the original stream right after the name that starts at \<open>c\<close>: right
  after the first compression pointer (two octets) when the labels lead to one, else
  right after the terminating zero label. No pointer is followed.
\<close>

function stream_end :: "bytes \<Rightarrow> nat \<Rightarrow> nat option" where
  "stream_end buf c =
     (if c \<ge> length buf then None
      else if (buf ! c) AND 0xC0 = 0xC0 then (if c + 1 < length buf then Some (c + 2) else None)
      else if (buf ! c) AND 0xC0 = 0x00 then
        (if unat ((buf ! c) AND 0x3F) > 0
         then stream_end buf (c + 1 + unat ((buf ! c) AND 0x3F))
         else Some (c + 1))
      else None)"
  by pat_completeness auto
termination
  by (relation "measure (\<lambda>(buf, c). length buf - c)") auto

declare stream_end.simps [simp del]

section \<open>constants.js: the registry of RR types and classes\<close>

text \<open>
  \<open>TYPE_LABELS\<close> and \<open>CLASS_LABELS\<close> are object literals with integer keys; the value
  \<open>null\<close> is \<open>None\<close>. \<open>Object.keys\<close> enumerates integer keys in ascending order, which
  is the order of the lists.
\<close>

definition TYPE_LABELS :: "(nat \<times> string option) list" where
  "TYPE_LABELS =
    [(1, Some ''A''), (2, Some ''NS''), (3, Some ''MD''), (4, Some ''MF''),
     (5, Some ''CNAME''), (6, Some ''SOA''), (7, Some ''MB''), (8, Some ''MG''),
     (9, Some ''MR''), (10, Some ''NULL''), (11, Some ''WKS''), (12, Some ''PTR''),
     (13, Some ''HINFO''), (14, Some ''MINFO''), (15, Some ''MX''), (16, Some ''TXT''),
     (17, Some ''RP''), (18, Some ''AFSDB''), (19, Some ''X25''), (20, Some ''ISDN''),
     (21, Some ''RT''), (22, Some ''NSAP''), (23, Some ''NSAP-PTR''), (24, Some ''SIG''),
     (25, Some ''KEY''), (26, Some ''PX''), (27, Some ''GPOS''), (28, Some ''AAAA''),
     (29, Some ''LOC''), (30, Some ''NXT''), (31, Some ''EID''), (32, Some ''NIMLOC''),
     (33, Some ''SRV''), (34, Some ''ATMA''), (35, Some ''NAPTR''), (36, Some ''KX''),
     (37, Some ''CERT''), (38, Some ''A6''), (39, Some ''DNAME''), (40, Some ''SINK''),
     (41, Some ''OPT''), (42, Some ''APL''), (43, Some ''DS''), (44, Some ''SSHFP''),
     (45, Some ''IPSECKEY''), (46, Some ''RRSIG''), (47, Some ''NSEC''), (48, Some ''DNSKEY''),
     (49, Some ''DHCID''), (50, Some ''NSEC3''), (51, Some ''NSEC3PARAM''), (52, Some ''TLSA''),
     (55, Some ''HIP''), (56, Some ''NINFO''), (57, Some ''RKEY''), (58, Some ''TALINK''),
     (59, Some ''CDS''),
     (99, Some ''SPF''), (100, Some ''UINFO''), (101, Some ''UID''), (102, Some ''GID''),
     (103, Some ''UNSPEC''), (104, Some ''NID''), (105, Some ''L32''), (106, Some ''L64''),
     (107, Some ''LP''),
     (249, Some ''TKEY''), (250, Some ''TSIG''), (251, Some ''IXFR''), (252, Some ''AXFR''),
     (253, Some ''MAILB''), (254, Some ''MAILA''), (255, Some ''*''), (256, Some ''URI''),
     (257, Some ''CAA''),
     (32768, Some ''TA''), (32769, Some ''DLV''),
     (65535, Some ''Reserved'')]"

definition CLASS_LABELS :: "(nat \<times> string option) list" where
  "CLASS_LABELS =
    [(0, Some ''reserved''), (1, Some ''IN''), (2, None), (3, Some ''CH''), (4, Some ''HS''),
     (254, Some ''NONE''), (255, Some ''*''),
     (65535, Some ''reserved'')]"

text \<open>
  \<open>transpose( mapping )\<close>: for every key in enumeration order, a value that is a string
  becomes a key of the result; a later key with the same label overwrites an earlier one.
\<close>

definition transpose_labels :: "(nat \<times> string option) list \<Rightarrow> (string \<rightharpoonup> nat)" where
  "transpose_labels mapping =
     foldl (\<lambda>result (key, val). case val of Some v \<Rightarrow> result(v \<mapsto> key) | None \<Rightarrow> result)
       Map.empty mapping"

definition TYPE_NUMBERS :: "string \<rightharpoonup> nat" where
  "TYPE_NUMBERS = transpose_labels TYPE_LABELS"

definition CLASS_NUMBERS :: "string \<rightharpoonup> nat" where
  "CLASS_NUMBERS = transpose_labels CLASS_LABELS"

text \<open>
  The tables, the encoder's \<open>domains\<close> and the server's \<open>zones\<close> are plain objects
  (\<open>{}\<close>) read with \<open>object[key]\<close>: a key that is not an own property is looked up in
  \<open>Object.prototype\<close>, whose property names are these. The value found there is a
  function or an object: truthy, and not a number.
\<close>

definition object_prototype_keys :: "string list" where
  "object_prototype_keys =
     [''constructor'', ''toString'', ''toLocaleString'', ''valueOf'', ''hasOwnProperty'',
      ''isPrototypeOf'', ''propertyIsEnumerable'', ''__proto__'', ''__defineGetter__'',
      ''__defineSetter__'', ''__lookupGetter__'', ''__lookupSetter__'']"

text \<open>What \<open>TYPE_NUMBERS[label]\<close> evaluates to when it is truthy.\<close>

datatype looked_up = Number nat | Inherited

text \<open>
  \<open>typeToLabel( value )\<close> and \<open>classToLabel( value )\<close>. The argument is a number read from
  the wire, or \<open>undefined\<close> (\<open>None\<close>), for which \<open>isNaN\<close> holds. No label of the tables is
  the empty string, so \<open>||\<close> only replaces \<open>undefined\<close> and \<open>null\<close>.
\<close>

definition label_of :: "(nat \<times> string option) list \<Rightarrow> nat \<Rightarrow> string option" where
  "label_of table v =
     (case map_of table v of
        Some (Some l) \<Rightarrow> Some l
      | _ \<Rightarrow> if v > 65279 then Some ''Private use'' else None)"

definition typeToLabel :: "nat option \<Rightarrow> error + string option" where
  "typeToLabel value =
     (case value of
        None \<Rightarrow> Inl InvalidRecordType
      | Some v \<Rightarrow> if v < 1 \<or> v > 65535 then Inl InvalidRecordType
                  else Inr (label_of TYPE_LABELS v))"

definition classToLabel :: "nat option \<Rightarrow> error + string option" where
  "classToLabel value =
     (case value of
        None \<Rightarrow> Inl InvalidRecordClass
      | Some v \<Rightarrow> if v < 1 \<or> v > 65535 then Inl InvalidRecordClass
                  else Inr (label_of CLASS_LABELS v))"

text \<open>
  \<open>typeToNumber( label )\<close> and \<open>classToNumber( label )\<close>: \<open>if ( num ) return num\<close>, so
  the number 0 is not returned. The label is a string, or \<open>null\<close>/\<open>undefined\<close> (\<open>None\<close>).
\<close>

definition number_of :: "(string \<rightharpoonup> nat) \<Rightarrow> error \<Rightarrow> string option \<Rightarrow> error + looked_up" where
  "number_of numbers missing label =
     (case label of
        None \<Rightarrow> Inl MustBeString
      | Some l \<Rightarrow>
          (case numbers l of
             Some num \<Rightarrow> if num \<noteq> 0 then Inr (Number num) else Inl missing
           | None \<Rightarrow> if l \<in> set object_prototype_keys then Inr Inherited else Inl missing))"

definition typeToNumber :: "string option \<Rightarrow> error + looked_up" where
  "typeToNumber label = number_of TYPE_NUMBERS NoSuchTypeLabel label"

definition classToNumber :: "string option \<Rightarrow> error + looked_up" where
  "classToNumber label = number_of CLASS_NUMBERS NoSuchClassLabel label"

section \<open>Messages and records\<close>

text \<open>
  Sequencing of fallible steps: the first \<open>throw\<close> ends the computation.
\<close>

definition then_do :: "error + 'a \<Rightarrow> ('a \<Rightarrow> error + 'b) \<Rightarrow> error + 'b" where
  "then_do m f = (case m of Inl e \<Rightarrow> Inl e | Inr v \<Rightarrow> f v)"

datatype sect = Question | Answer | Authority | Additional

text \<open>
  \<open>SECTIONS\<close> is imported by decode.js and encode.js from constants.js, whose version in
  the sources does not export it; message.js declares the same constant locally as
  \<open>[ "question", "answer", "authority", "additional" ]\<close>.
\<close>

definition SECTIONS :: "sect list" where
  "SECTIONS = [Question, Answer, Authority, Additional]"

text \<open>The EDNS fields of an OPT pseudo-RR (\<open>RawEDNSResourceRecord\<close>).\<close>

record edns_data =
  udpSize :: nat
  extendedResult :: int
  version :: nat
  flagDO :: bool
  flags :: nat
  options :: "(nat \<times> bytes) list"

text \<open>
  A record as \<open>Decode.sections\<close> leaves it. A property that was never assigned is
  \<open>undefined\<close> (\<open>None\<close>): an OPT record has no \<open>name\<close>, \<open>class\<close>, \<open>ttl\<close> and \<open>data\<close>, a
  question has no \<open>ttl\<close> and \<open>data\<close>. \<open>raw_edns\<close> holds the fields that come with
  \<open>record.edns = true\<close>.
\<close>

record raw_record =
  raw_name :: "string option"
  raw_class :: "nat option"
  raw_type :: nat
  raw_ttl :: "nat option"
  raw_data :: "bytes option"
  raw_edns :: "edns_data option"

text \<open>The type-specific payload of a record, in the shapes \<open>DNSRecord.parse\<close> produces.\<close>

datatype rdata =
    DString string                       \<comment> \<open>A, AAAA, NS, CNAME, PTR, a single TXT string\<close>
  | DStrings "string list"               \<comment> \<open>an array: several TXT strings, \<open>[]\<close> of NONE A\<close>
  | DMX nat string                       \<comment> \<open>\<open>{ weight, name }\<close>\<close>
  | DSRV nat nat nat string              \<comment> \<open>\<open>{ priority, weight, port, target }\<close>\<close>
  | DSOA string string nat nat nat nat nat
      \<comment> \<open>\<open>{ mname, rname, serial, refresh, retry, expire, ttl }\<close>\<close>
  | DDS "nat option" "nat option" "nat option" "nat list"
      \<comment> \<open>\<open>{ keyTag, algorithm, digestType, digest }\<close>; \<open>None\<close> is \<open>NaN\<close> or \<open>undefined\<close>\<close>
  | DBuffer bytes                        \<comment> \<open>the raw payload\<close>

text \<open>A \<open>DNSRecord\<close>; a property that is \<open>null\<close> or \<open>undefined\<close> is \<open>None\<close>.\<close>

record dns_record =
  r_name :: "string option"
  r_type :: "string option"
  r_class :: "string option"
  r_ttl :: "nat option"
  r_data :: "rdata option"
  r_edns :: "edns_data option"

text \<open>
  A \<open>DNSMessage\<close>. The six flags are only ever tested for truthiness, so \<open>null\<close> is
  \<open>False\<close>; a section that is \<open>undefined\<close> is read as \<open>[]\<close> everywhere.
\<close>

record dns_message =
  m_id :: "nat option"
  m_type :: "string option"
  m_responseCode :: "nat option"
  m_opcode :: "string option"
  m_authoritative :: bool
  m_truncated :: bool
  m_recursionDesired :: bool
  m_recursionAvailable :: bool
  m_authenticated :: bool
  m_checkingDisabled :: bool
  m_question :: "dns_record list"
  m_answer :: "dns_record list"
  m_authority :: "dns_record list"
  m_additional :: "dns_record list"

definition section_of :: "dns_message \<Rightarrow> sect \<Rightarrow> dns_record list" where
  "section_of msg s =
     (case s of Question \<Rightarrow> m_question msg | Answer \<Rightarrow> m_answer msg
      | Authority \<Rightarrow> m_authority msg | Additional \<Rightarrow> m_additional msg)"

section \<open>decode.js: sections and payloads\<close>

definition recordCount :: "bytes \<Rightarrow> sect \<Rightarrow> error + nat" where
  "recordCount msg name =
     (case name of Question \<Rightarrow> readUInt16BE msg 4 | Answer \<Rightarrow> readUInt16BE msg 6
      | Authority \<Rightarrow> readUInt16BE msg 8 | Additional \<Rightarrow> readUInt16BE msg 10)"

text \<open>\<open>extractEDNSOptions( buffer )\<close>: the loop, from \<open>offset\<close> with the options read so far.\<close>

function extractEDNSOptions :: "bytes \<Rightarrow> nat \<Rightarrow> (nat \<times> bytes) list \<Rightarrow> error + (nat \<times> bytes) list" where
  "extractEDNSOptions buf offset opts =
     (if offset < length buf then
        (case readUInt16BE buf offset of
           Inl e \<Rightarrow> Inl e
         | Inr code \<Rightarrow>
             (case readUInt16BE buf (offset + 2) of
                Inl e \<Rightarrow> Inl e
              | Inr len \<Rightarrow>
                  extractEDNSOptions buf (offset + 4 + len)
                    (opts @ [(code, slice buf (offset + 4) (offset + 4 + len))])))
      else Inr opts)"
  by pat_completeness auto
termination
  by (relation "measure (\<lambda>(buf, offset, opts). length buf - offset)") auto

declare extractEDNSOptions.simps [simp del]

text \<open>
  \<open>ttl >> 24\<close> on the unsigned 32-bit \<open>ttl\<close>: the shift works on the signed 32-bit
  reading of its operand.
\<close>

definition sar32 :: "nat \<Rightarrow> nat \<Rightarrow> int" where
  "sar32 x n = sint (word_of_nat x :: 32 word) div 2 ^ n"

text \<open>
  The body of the inner loop of \<open>Decode.sections\<close>: the record at \<open>position\<close>, and the
  position after it.
\<close>

definition decode_record :: "bytes \<Rightarrow> bool \<Rightarrow> nat \<Rightarrow> error + (raw_record \<times> nat)" where
  "decode_record msg is_question position =
     then_do (compileName msg None position) (\<lambda>(segs, len).
     let name = join_dot segs; position = position + len in
     then_do (readUInt16BE msg position) (\<lambda>typeValue.
     then_do (readUInt16BE msg (position + 2)) (\<lambda>classValue.
     let position = position + 4 in
     if is_question
     then Inr (\<lparr>raw_name = Some name, raw_class = Some classValue, raw_type = typeValue,
                raw_ttl = None, raw_data = None, raw_edns = None\<rparr>, position)
     else
       then_do (readUInt32BE msg position) (\<lambda>ttl.
       then_do (readUInt16BE msg (position + 4)) (\<lambda>rdataLength.
       let position = position + 6;
           data = slice msg position (position + rdataLength);
           position = position + rdataLength in
       then_do (typeToLabel (Some typeValue)) (\<lambda>label.
       if label = Some ''OPT'' then
         (if name \<noteq> [] then Inl InvalidEDNS
          else then_do (extractEDNSOptions data 0 []) (\<lambda>opts.
               Inr (\<lparr>raw_name = None, raw_class = None, raw_type = typeValue,
                      raw_ttl = None, raw_data = None,
                      raw_edns = Some \<lparr>udpSize = max 512 classValue,
                                        extendedResult = sar32 ttl 24,
                                        version = (ttl div 65536) mod 256,
                                        flagDO = (ttl div 32768) mod 2 = 1,
                                        flags = ttl mod 32768,
                                        options = opts\<rparr>\<rparr>, position)))
       else Inr (\<lparr>raw_name = Some name, raw_class = Some classValue, raw_type = typeValue,
                  raw_ttl = Some ttl, raw_data = Some data, raw_edns = None\<rparr>, position)))))))"

text \<open>\<open>for ( let i = 0; i < numRecords; i++ )\<close>, by the number of records still to read.\<close>

fun decode_records :: "bytes \<Rightarrow> bool \<Rightarrow> nat \<Rightarrow> nat \<Rightarrow> error + (raw_record list \<times> nat)" where
  "decode_records msg is_question 0 position = Inr ([], position)"
| "decode_records msg is_question (Suc n) position =
     (case decode_record msg is_question position of
        Inl e \<Rightarrow> Inl e
      | Inr (r, position') \<Rightarrow>
          (case decode_records msg is_question n position' of
             Inl e \<Rightarrow> Inl e
           | Inr (rs, position'') \<Rightarrow> Inr (r # rs, position'')))"

text \<open>\<open>for ( const sectionName of SECTIONS )\<close>\<close>

fun decode_sections :: "bytes \<Rightarrow> sect list \<Rightarrow> nat \<Rightarrow> error + (sect \<times> raw_record list) list" where
  "decode_sections msg [] position = Inr []"
| "decode_sections msg (s # ss) position =
     (case recordCount msg s of
        Inl e \<Rightarrow> Inl e
      | Inr numRecords \<Rightarrow>
          (case decode_records msg (s = Question) numRecords position of
             Inl e \<Rightarrow> Inl e
           | Inr (rs, position') \<Rightarrow>
               (case decode_sections msg ss position' of
                  Inl e \<Rightarrow> Inl e
                | Inr rest \<Rightarrow> Inr ((s, rs) # rest))))"

text \<open>\<open>Decode.sections( msg )\<close>\<close>

definition sections :: "bytes \<Rightarrow> error + (sect \<times> raw_record list) list" where
  "sections msg = decode_sections msg SECTIONS 12"

text \<open>\<open>Decode.mx\<close>, \<open>Decode.srv\<close>, \<open>Decode.soa\<close> and \<open>Decode.txt\<close>.\<close>

definition decode_mx :: "bytes \<Rightarrow> bytes \<Rightarrow> error + rdata" where
  "decode_mx msg data =
     then_do (readUInt16BE data 0) (\<lambda>weight.
     then_do (uncompress msg (Some data) 2) (\<lambda>name. Inr (DMX weight name)))"

definition decode_srv :: "bytes \<Rightarrow> bytes \<Rightarrow> error + rdata" where
  "decode_srv msg data =
     then_do (readUInt16BE data 0) (\<lambda>priority.
     then_do (readUInt16BE data 2) (\<lambda>weight.
     then_do (readUInt16BE data 4) (\<lambda>port.
     then_do (uncompress msg (Some data) 6) (\<lambda>target. Inr (DSRV priority weight port target)))))"

definition decode_soa :: "bytes \<Rightarrow> bytes \<Rightarrow> error + rdata" where
  "decode_soa msg data =
     then_do (compileName msg (Some data) 0) (\<lambda>(msegs, mlen).
     then_do (compileName msg (Some data) mlen) (\<lambda>(rsegs, rlen).
     let offset = mlen + rlen in
     then_do (readUInt32BE data offset) (\<lambda>serial.
     then_do (readUInt32BE data (offset + 4)) (\<lambda>refresh.
     then_do (readUInt32BE data (offset + 8)) (\<lambda>retry.
     then_do (readUInt32BE data (offset + 12)) (\<lambda>expire.
     then_do (readUInt32BE data (offset + 16)) (\<lambda>ttl.
     Inr (DSOA (join_dot msegs) (join_dot rsegs) serial refresh retry expire ttl))))))))"

function decode_txt :: "bytes \<Rightarrow> string list" where
  "decode_txt iter =
     (if iter = [] then []
      else toString_ascii iter 1 (1 + unat (hd iter)) # decode_txt (drop (1 + unat (hd iter)) iter))"
  by pat_completeness auto
termination
  by (relation "measure length") auto

declare decode_txt.simps [simp del]

section \<open>message.js: DNSRecord.parse and DNSMessage.parse\<close>

text \<open>Decimal digits of an octet, as \<open>Array.prototype.join\<close> prints a number below 256.\<close>

definition digit_char :: "nat \<Rightarrow> char" where
  "digit_char d = char_of (48 + d)"

definition octet_string :: "byte \<Rightarrow> string" where
  "octet_string b =
     (let n = unat b in
      if n < 10 then [digit_char n]
      else if n < 100 then [digit_char (n div 10), digit_char (n mod 10)]
      else [digit_char (n div 100), digit_char ((n div 10) mod 10), digit_char (n mod 10)])"

text \<open>\<open>renderIPv4( octets )\<close>: the first four octets, joined by dots.\<close>

definition renderIPv4 :: "bytes \<Rightarrow> string" where
  "renderIPv4 octets = join_dot (map octet_string (take 4 octets))"

definition hex_char :: "nat \<Rightarrow> char" where
  "hex_char d = (if d < 10 then char_of (48 + d) else char_of (87 + d))"

text \<open>\<open>buf.toString( "hex" )\<close>\<close>

definition toString_hex :: "bytes \<Rightarrow> string" where
  "toString_hex buf = concat (map (\<lambda>b. [hex_char (unat b div 16), hex_char (unat b mod 16)]) buf)"

text \<open>\<open>.replace( /(....)/g, "$1:" )\<close>: a colon after every complete group of four.\<close>

fun colon_groups :: "string \<Rightarrow> string" where
  "colon_groups (a # b # c # d # rest) = a # b # c # d # CHR '':'' # colon_groups rest"
| "colon_groups s = s"

text \<open>\<open>renderIPv6( buf )\<close>; \<open>.replace( /:$/, "" )\<close> drops one final colon.\<close>

definition renderIPv6 :: "bytes \<Rightarrow> string" where
  "renderIPv6 buf =
     (let s = colon_groups (toString_hex buf)
      in if s \<noteq> [] \<and> last s = CHR '':'' then butlast s else s)"

text \<open>\<open>s.replace( /\./, "@" )\<close>: the first dot becomes an at sign.\<close>

fun replace_first_dot :: "string \<Rightarrow> string" where
  "replace_first_dot [] = []"
| "replace_first_dot (c # cs) = (if c = CHR ''.'' then CHR ''@'' # cs else c # replace_first_dot cs)"

text \<open>\<open>kind()\<close>: \<open>this.class + " " + this.type\<close>, for a class and a type that are strings.\<close>

definition kind :: "string \<Rightarrow> string \<Rightarrow> string" where
  "kind cls typ = cls @ '' '' @ typ"

text \<open>
  \<open>DNSRecord.parse( body, sectionName, recordNum, sections )\<close> on the record that
  \<open>Decode.getRecord\<close> selects. The constructor leaves \<open>this.edns\<close> undefined before it
  calls \<open>parse\<close>, so the branch \<open>sectionName === "additional" && this.edns\<close> is never
  taken.
\<close>

definition parse_data :: "bytes \<Rightarrow> string \<Rightarrow> bytes option \<Rightarrow> error + rdata" where
  "parse_data body k rdata_opt =
     (if k \<in> set [''IN A'', ''IN AAAA'', ''IN NS'', ''IN CNAME'', ''IN PTR'', ''IN TXT'',
                   ''IN MX'', ''IN SRV'', ''IN SOA'', ''IN DS'', ''NONE A'', ''IN OPT'']
      then (case rdata_opt of
              None \<Rightarrow> if k = ''NONE A'' then Inr (DStrings []) else Inl JsTypeError
            | Some rdata \<Rightarrow>
                if k = ''IN A'' then
                  (if length rdata \<noteq> 4 then Inl BadRDATA else Inr (DString (renderIPv4 rdata)))
                else if k = ''IN AAAA'' then
                  (if length rdata \<noteq> 16 then Inl BadRDATA else Inr (DString (renderIPv6 rdata)))
                else if k = ''IN NS'' \<or> k = ''IN CNAME'' \<or> k = ''IN PTR'' then
                  then_do (uncompress body (Some rdata) 0) (\<lambda>name. Inr (DString name))
                else if k = ''IN TXT'' then
                  (case decode_txt rdata of
                     [] \<Rightarrow> Inr (DString [])
                   | [s] \<Rightarrow> Inr (DString s)
                   | ss \<Rightarrow> Inr (DStrings ss))
                else if k = ''IN MX'' then decode_mx body rdata
                else if k = ''IN SRV'' then decode_srv body rdata
                else if k = ''IN SOA'' then
                  then_do (decode_soa body rdata) (\<lambda>d.
                    case d of
                      DSOA mname rname serial refresh retry expire ttl \<Rightarrow>
                        Inr (DSOA mname (replace_first_dot rname) serial refresh retry expire ttl)
                    | other \<Rightarrow> Inr other)
                else if k = ''IN DS'' then
                  Inr (DDS (if length rdata \<ge> 2
                            then Some (unat (rdata ! 0) * 256 + unat (rdata ! 1)) else None)
                           (if length rdata > 2 then Some (unat (rdata ! 2)) else None)
                           (if length rdata > 3 then Some (unat (rdata ! 3)) else None)
                           (map unat (drop 4 rdata)))
                else if k = ''NONE A'' then Inr (DStrings [])
                else Inr (DBuffer rdata))
      else Inl UnknownRecord)"

definition DNSRecord_parse :: "bytes \<Rightarrow> sect \<Rightarrow> raw_record \<Rightarrow> error + dns_record" where
  "DNSRecord_parse body sectionName rec =
     then_do (classToLabel (raw_class rec)) (\<lambda>cls.
     then_do (typeToLabel (Some (raw_type rec))) (\<lambda>typ.
     case cls of
       None \<Rightarrow> Inl UnknownClass
     | Some c \<Rightarrow>
         (case typ of
            None \<Rightarrow> Inl UnknownType
          | Some t \<Rightarrow>
              if sectionName = Question
              then Inr \<lparr>r_name = raw_name rec, r_type = Some t, r_class = Some c,
                        r_ttl = None, r_data = None, r_edns = None\<rparr>
              else then_do (parse_data body (kind c t) (raw_data rec)) (\<lambda>d.
                   Inr \<lparr>r_name = raw_name rec, r_type = Some t, r_class = Some c,
                        r_ttl = raw_ttl rec, r_data = Some d, r_edns = None\<rparr>))))"

text \<open>The records of one section, in order; the first failure ends the decoding.\<close>

fun parse_records :: "bytes \<Rightarrow> sect \<Rightarrow> raw_record list \<Rightarrow> error + dns_record list" where
  "parse_records body s [] = Inr []"
| "parse_records body s (r # rs) =
     (case DNSRecord_parse body s r of
        Inl e \<Rightarrow> Inl e
      | Inr d \<Rightarrow> (case parse_records body s rs of Inl e \<Rightarrow> Inl e | Inr ds \<Rightarrow> Inr (d # ds)))"

fun parse_sections :: "bytes \<Rightarrow> (sect \<times> raw_record list) list
    \<Rightarrow> error + (sect \<times> dns_record list) list" where
  "parse_sections body [] = Inr []"
| "parse_sections body ((s, rs) # rest) =
     (case parse_records body s rs of
        Inl e \<Rightarrow> Inl e
      | Inr ds \<Rightarrow> (case parse_sections body rest of Inl e \<Rightarrow> Inl e | Inr others \<Rightarrow> Inr ((s, ds) # others)))"

definition opcodeNames :: "string option list" where
  "opcodeNames = [Some ''query'', Some ''iquery'', Some ''status'', None, Some ''notify'', Some ''update'']"

definition records_of :: "(sect \<times> dns_record list) list \<Rightarrow> sect \<Rightarrow> dns_record list" where
  "records_of secs s = (case map_of secs s of Some rs \<Rightarrow> rs | None \<Rightarrow> [])"

text \<open>
  \<open>DNSMessage.parse( body )\<close>, which is \<open>decode( packet )\<close>. The header accessors read
  the octets 0 to 3; \<open>opcodeNames[opcode] || null\<close>.
\<close>

definition DNSMessage_parse :: "bytes \<Rightarrow> error + dns_message" where
  "DNSMessage_parse body =
     then_do (readUInt16BE body 0) (\<lambda>ident.
     then_do (readUInt8 body 2) (\<lambda>b2.
     then_do (readUInt8 body 3) (\<lambda>b3.
     then_do (sections body) (\<lambda>sectionsCache.
     then_do (parse_sections body sectionsCache) (\<lambda>secs.
     let opcode = unat (drop_bit 3 b2 AND 0x0F) in
     Inr \<lparr>m_id = Some ident,
          m_type = Some (if drop_bit 7 b2 = 0 then ''request'' else ''response''),
          m_responseCode = Some (unat (b3 AND 0x0F)),
          m_opcode = (if opcode < length opcodeNames then opcodeNames ! opcode else None),
          m_authoritative = (drop_bit 2 b2 AND 1 \<noteq> 0),
          m_truncated = (drop_bit 1 b2 AND 1 \<noteq> 0),
          m_recursionDesired = (b2 AND 1 \<noteq> 0),
          m_recursionAvailable = (drop_bit 7 b3 \<noteq> 0),
          m_authenticated = (drop_bit 5 b3 AND 1 \<noteq> 0),
          m_checkingDisabled = (drop_bit 4 b3 AND 1 \<noteq> 0),
          m_question = records_of secs Question,
          m_answer = records_of secs Answer,
          m_authority = records_of secs Authority,
          m_additional = records_of secs Additional\<rparr>)))))"

definition decode :: "bytes \<Rightarrow> error + dns_message" where
  "decode packet = DNSMessage_parse packet"

section \<open>encode.js: the Encoder\<close>

text \<open>
  \<open>buf.writeUInt16BE( value )\<close> and \<open>buf.writeUInt32BE( value )\<close> on a fresh buffer: a
  value outside the range raises a \<open>RangeError\<close>. A value that is \<open>null\<close>, \<open>undefined\<close>,
  \<open>NaN\<close> or not a number is converted by the unary plus to 0 or \<open>NaN\<close> and written as 0.
\<close>

definition writeUInt16BE :: "int \<Rightarrow> error + bytes" where
  "writeUInt16BE v =
     (if v < 0 \<or> v > 65535 then Inl JsRangeError
      else Inr [word_of_int (v div 256), word_of_int v])"

definition writeUInt32BE :: "int \<Rightarrow> error + bytes" where
  "writeUInt32BE v =
     (if v < 0 \<or> v > 4294967295 then Inl JsRangeError
      else Inr [word_of_int (v div 16777216), word_of_int (v div 65536),
                word_of_int (v div 256), word_of_int v])"

text \<open>\<open>buf16( value )\<close>, \<open>buf32( value )\<close>; the number a looked-up value is written as.\<close>

definition buf16 :: "nat \<Rightarrow> error + bytes" where
  "buf16 v = writeUInt16BE (int v)"

definition buf32 :: "nat \<Rightarrow> error + bytes" where
  "buf32 v = writeUInt32BE (int v)"

definition write_looked_up :: "looked_up \<Rightarrow> error + bytes" where
  "write_looked_up v = (case v of Number n \<Rightarrow> buf16 n | Inherited \<Rightarrow> buf16 0)"

text \<open>
  The character classes of the regular expressions, on code units below 256:
  \<open>\s\<close> is tab, line feed, vertical tab, form feed, carriage return, space and the
  no-break space; \<open>.\<close> matches everything but line feed and carriage return.
\<close>

definition is_space :: "char \<Rightarrow> bool" where
  "is_space c = (of_char c \<in> {9, 10, 11, 12, 13, 32, 160 :: nat})"

definition is_line_terminator :: "char \<Rightarrow> bool" where
  "is_line_terminator c = (of_char c \<in> {10, 13 :: nat})"

definition label_char :: "char \<Rightarrow> bool" where
  "label_char c = (c \<noteq> CHR ''.'' \<and> \<not> is_space c)"

text \<open>
  \<open>/^([^.\s]{1,63})(?:\.([^.\s].*))?$/.exec( domain )\<close>: the first label and the rest
  of the name (\<open>split[2]\<close>, or \<open>""\<close> when it is undefined); \<open>None\<close> when there is no match.
\<close>

definition split_label :: "string \<Rightarrow> (string \<times> string) option" where
  "split_label domain =
     (let segment = takeWhile label_char domain; rest = dropWhile label_char domain in
      if segment = [] \<or> length segment > 63 then None
      else case rest of
             [] \<Rightarrow> Some (segment, [])
           | c # r \<Rightarrow>
               if c = CHR ''.'' \<and> r \<noteq> [] \<and> label_char (hd r)
                  \<and> list_all (\<lambda>x. \<not> is_line_terminator x) r
               then Some (segment, r) else None)"

text \<open>\<open>fqdn.replace( /\.$/, "" )\<close>\<close>

definition strip_final_dot :: "string \<Rightarrow> string" where
  "strip_final_dot fqdn = (if fqdn \<noteq> [] \<and> last fqdn = CHR ''.'' then butlast fqdn else fqdn)"

text \<open>
  \<open>this.domains[domain] = position\<close> on the plain object \<open>domains\<close>: the assignment of a
  number to \<open>__proto__\<close> is ignored. A key that was never assigned reads as
  \<open>undefined\<close> or as a property of \<open>Object.prototype\<close>; neither passes the test
  \<open>pointer && compress && pointer <= 0x3fff\<close>.
\<close>

definition domains_set :: "(string \<rightharpoonup> nat) \<Rightarrow> string \<Rightarrow> nat \<Rightarrow> (string \<rightharpoonup> nat)" where
  "domains_set domains domain position =
     (if domain = ''__proto__'' then domains else domains(domain \<mapsto> position))"

definition pointer_usable :: "(string \<rightharpoonup> nat) \<Rightarrow> bool \<Rightarrow> string \<Rightarrow> nat option" where
  "pointer_usable domains compress domain =
     (case domains domain of
        Some pointer \<Rightarrow> if pointer \<noteq> 0 \<and> compress \<and> pointer \<le> 0x3FFF then Some pointer else None
      | None \<Rightarrow> None)"

text \<open>The chunk of one label: its length, then its characters, one octet each.\<close>

definition label_chunk :: "string \<Rightarrow> bytes" where
  "label_chunk segment = word_of_nat (length segment) # map (\<lambda>c. word_of_nat (of_char c)) segment"

text \<open>\<open>Buffer.from( [ 0xc0 + ( pointer >> 8 ), pointer & 0xff ] )\<close>\<close>

definition pointer_chunk :: "nat \<Rightarrow> bytes" where
  "pointer_chunk pointer = [word_of_nat (0xC0 + pointer div 256), word_of_nat (pointer mod 256)]"

text \<open>
  The loop \<open>while ( domain.length > 0 )\<close> of \<open>encodeName\<close>, with the octets of the
  chunks pushed so far. It returns the encoded name and the dictionary.

  The code stores \<open>this.domains[domain] = position\<close> before it tries the regular
  expression, so when a name is refused the dictionary of the encoder holds the refused
  remainder too. The exception ends the encoding: the result \<open>Inl\<close> carries no encoder,
  and what an encoder does when it is used again after the exception is not described
  here. The properties of \<open>encodeName\<close> below hold for every dictionary, also one with
  such entries.
\<close>

function encodeName_loop :: "(string \<rightharpoonup> nat) \<Rightarrow> bool \<Rightarrow> string \<Rightarrow> nat \<Rightarrow> bytes
    \<Rightarrow> error + (bytes \<times> (string \<rightharpoonup> nat))" where
  "encodeName_loop domains compress domain position chunks =
     (if domain = [] then Inr (chunks @ [0], domains)
      else case pointer_usable domains compress domain of
             Some pointer \<Rightarrow> Inr (chunks @ pointer_chunk pointer, domains)
           | None \<Rightarrow>
               (case split_label domain of
                  None \<Rightarrow> Inl InvalidName
                | Some (segment, rest) \<Rightarrow>
                    encodeName_loop (domains_set domains domain position) compress rest
                      (position + (length segment + 1)) (chunks @ label_chunk segment)))"
  by pat_completeness auto
termination
proof (relation "measure (\<lambda>(domains, compress, domain, position, chunks). length domain)")
  show "wf (measure (\<lambda>(domains, compress, domain, position, chunks). length domain))"
    by simp
next
  fix domains :: "string \<rightharpoonup> nat" and compress :: bool and domain :: string
    and position :: nat and chunks :: bytes and x2 :: "string \<times> string" and segment rest :: string
  assume "split_label domain = Some x2" and "(segment, rest) = x2"
  then have s: "split_label domain = Some (segment, rest)" by simp
  have "length (dropWhile label_char domain) \<le> length domain"
    by (rule length_dropWhile_le)
  with s have "length rest < length domain"
    by (auto simp: split_label_def Let_def split: if_splits list.splits)
  then show "((domains_set domains domain position, compress, rest,
               position + (length segment + 1), chunks @ label_chunk segment),
              (domains, compress, domain, position, chunks))
             \<in> measure (\<lambda>(domains, compress, domain, position, chunks). length domain)"
    by simp
qed

declare encodeName_loop.simps [simp del]

text \<open>
  The state of an \<open>Encoder\<close>. The header is assembled when the message is complete;
  the sections hold one buffer per record.
\<close>

record encoder =
  e_position :: nat
  e_question :: "bytes list"
  e_answer :: "bytes list"
  e_authority :: "bytes list"
  e_additional :: "bytes list"
  e_domains :: "string \<rightharpoonup> nat"

definition new_Encoder :: encoder where
  "new_Encoder = \<lparr>e_position = 0, e_question = [], e_answer = [], e_authority = [],
                   e_additional = [], e_domains = Map.empty\<rparr>"

text \<open>
  \<open>encodeName( fqdn, shift, { compress } )\<close>; \<open>fqdn\<close> that is not a string has no
  \<open>replace\<close> method.
\<close>

definition encodeName :: "encoder \<Rightarrow> string option \<Rightarrow> nat \<Rightarrow> bool \<Rightarrow> error + (bytes \<times> encoder)" where
  "encodeName enc fqdn shift compress =
     (case fqdn of
        None \<Rightarrow> Inl JsTypeError
      | Some name \<Rightarrow>
          then_do (encodeName_loop (e_domains enc) compress (strip_final_dot name)
                     (e_position enc + shift) [])
            (\<lambda>(buf, domains). Inr (buf, enc\<lparr>e_domains := domains\<rparr>)))"

text \<open>\<open>this[sectionName].push( buffer )\<close>\<close>

definition push_record :: "encoder \<Rightarrow> sect \<Rightarrow> bytes \<Rightarrow> encoder" where
  "push_record enc sectionName buf =
     (case sectionName of
        Question \<Rightarrow> enc\<lparr>e_question := e_question enc @ [buf]\<rparr>
      | Answer \<Rightarrow> enc\<lparr>e_answer := e_answer enc @ [buf]\<rparr>
      | Authority \<Rightarrow> enc\<lparr>e_authority := e_authority enc @ [buf]\<rparr>
      | Additional \<Rightarrow> enc\<lparr>e_additional := e_additional enc @ [buf]\<rparr>)"

definition advance :: "encoder \<Rightarrow> nat \<Rightarrow> encoder" where
  "advance enc n = enc\<lparr>e_position := e_position enc + n\<rparr>"

text \<open>\<open>s.split( c )\<close> for a one-character separator.\<close>

fun split_on :: "char \<Rightarrow> string \<Rightarrow> string list" where
  "split_on c [] = [[]]"
| "split_on c (x # xs) =
     (if x = c then [] # split_on c xs
      else case split_on c xs of w # ws \<Rightarrow> (x # w) # ws | [] \<Rightarrow> [[x]])"

definition is_digit :: "char \<Rightarrow> bool" where
  "is_digit c = (48 \<le> (of_char c :: nat) \<and> (of_char c :: nat) \<le> 57)"

text \<open>
  \<open>Number( digits )\<close> for a string of decimal digits. The result is a double: an integer
  below \<open>2^53\<close> is itself, a larger one is rounded to 53 significant bits, a tie to the
  even neighbour. (Beyond the largest double the code has \<open>Infinity\<close>, which a buffer
  stores as the octet 0, as it stores the multiple of \<open>2^971\<close> that \<open>to_double\<close> gives.)
\<close>

fun bit_length :: "nat \<Rightarrow> nat" where
  "bit_length n = (if n = 0 then 0 else Suc (bit_length (n div 2)))"

declare bit_length.simps [simp del]

definition to_double :: "nat \<Rightarrow> nat" where
  "to_double n =
     (if n < 9007199254740992 then n
      else let k = bit_length n - 53; q = n div 2 ^ k; r = n mod 2 ^ k; half = 2 ^ (k - 1)
           in (if r > half \<or> (r = half \<and> odd q) then q + 1 else q) * 2 ^ k)"

definition number_of_digits :: "string \<Rightarrow> nat" where
  "number_of_digits s = to_double (foldl (\<lambda>n c. 10 * n + (of_char c - 48)) 0 s)"

text \<open>
  \<open>rdata.match( /^(\d+)\.(\d+)\.(\d+)\.(\d+)$/ )\<close> and the four numbers; stored in a
  buffer, each number is reduced modulo 256.
\<close>

definition match_ipv4 :: "string \<Rightarrow> nat list option" where
  "match_ipv4 s =
     (let parts = split_on CHR ''.'' s in
      if length parts = 4 \<and> list_all (\<lambda>p. p \<noteq> [] \<and> list_all is_digit p) parts
      then Some (map number_of_digits parts) else None)"

definition hex_value :: "char \<Rightarrow> nat option" where
  "hex_value c =
     (let n = (of_char c :: nat) in
      if 48 \<le> n \<and> n \<le> 57 then Some (n - 48)
      else if 97 \<le> n \<and> n \<le> 102 then Some (n - 87)
      else if 65 \<le> n \<and> n \<le> 70 then Some (n - 55)
      else None)"

text \<open>
  One group of an IPv6 address: \<open>( "0000" + pair ).slice( -4 )\<close> must match
  \<open>/^[0-9a-f]{4}$/i\<close> and is then read as two octets.
\<close>

definition ipv6_group :: "string \<Rightarrow> error + bytes" where
  "ipv6_group pair =
     (let padded = ''0000'' @ pair; qualified = drop (length padded - 4) padded in
      case map hex_value qualified of
        [Some a, Some b, Some c, Some d] \<Rightarrow> Inr [word_of_nat (16 * a + b), word_of_nat (16 * c + d)]
      | other \<Rightarrow> Inl BadRecordData)"

fun ipv6_groups :: "string list \<Rightarrow> error + bytes" where
  "ipv6_groups [] = Inr []"
| "ipv6_groups (p # ps) =
     (case ipv6_group p of
        Inl e \<Rightarrow> Inl e
      | Inr b \<Rightarrow> (case ipv6_groups ps of Inl e \<Rightarrow> Inl e | Inr bs \<Rightarrow> Inr (b @ bs)))"

text \<open>\<open>Buffer.from( string )\<close>: UTF-8, for code units below 256.\<close>

definition utf8 :: "string \<Rightarrow> bytes" where
  "utf8 s = concat (map (\<lambda>c. let n = (of_char c :: nat) in
                              if n < 128 then [word_of_nat n]
                              else [word_of_nat (192 + n div 64), word_of_nat (128 + n mod 64)]) s)"

text \<open>
  \<open>String( part )\<close> for the payload of a TXT record that is not an array. (A buffer is
  decoded as UTF-8; the model covers buffers of octets below 128.)
\<close>

definition js_String :: "rdata option \<Rightarrow> string" where
  "js_String d =
     (case d of
        None \<Rightarrow> ''undefined''
      | Some (DString s) \<Rightarrow> s
      | Some (DStrings ss) \<Rightarrow> []
      | Some (DBuffer b) \<Rightarrow> map (\<lambda>x. char_of (unat x)) b
      | Some other \<Rightarrow> ''[object Object]'')"

definition txt_chunk :: "string \<Rightarrow> bytes" where
  "txt_chunk part = (let chunk = utf8 part in word_of_nat (length chunk) # chunk)"

text \<open>The mail address of an SOA record: \<open>rname.split( "@" )\<close>, dots of the first part escaped, joined by dots.\<close>

definition escape_dots :: "string \<Rightarrow> string" where
  "escape_dots s = concat (map (\<lambda>c. if c = CHR ''.'' then [CHR 0x5C, CHR ''.''] else [c]) s)"

definition soa_mail :: "string \<Rightarrow> string" where
  "soa_mail rname =
     (case split_on CHR ''@'' rname of
        [] \<Rightarrow> rname
      | p # ps \<Rightarrow> join_dot (escape_dots p # ps))"

text \<open>
  The \<open>switch\<close> of \<open>Encoder.record\<close> on \<open>record.class + " " + record.type\<close>: the octets
  of the payload (\<open>toOctetList( rdata )\<close>, as \<open>Buffer.from\<close> stores them) and the encoder
  with the names recorded meanwhile. The encoder's position is at the RDLENGTH field.
  A payload of another shape than the case expects ends in a \<open>TypeError\<close>: a property
  of \<open>undefined\<close> is read, or a string method is missing.
\<close>

definition encode_rdata :: "encoder \<Rightarrow> string \<Rightarrow> rdata option \<Rightarrow> error + (bytes \<times> encoder)" where
  "encode_rdata enc k d =
     (if k = ''IN A'' then
        (case (case d of None \<Rightarrow> Some ''0.0.0.0''
                       | Some (DString s) \<Rightarrow> Some (if s = [] then ''0.0.0.0'' else s)
                       | Some other \<Rightarrow> None) of
           None \<Rightarrow> Inl JsTypeError
         | Some s \<Rightarrow> (case match_ipv4 s of
                        None \<Rightarrow> Inl BadRecordData
                      | Some ns \<Rightarrow> Inr (map word_of_nat ns, enc)))
      else if k = ''IN AAAA'' then
        (case (case d of None \<Rightarrow> Some [] | Some (DString s) \<Rightarrow> Some s | Some other \<Rightarrow> None) of
           None \<Rightarrow> Inl JsTypeError
         | Some s \<Rightarrow> (let parts = split_on CHR '':'' s in
                       if length parts \<noteq> 8 then Inl BadRecordData
                       else then_do (ipv6_groups parts) (\<lambda>bs. Inr (bs, enc))))
      else if k = ''IN MX'' then
        (case d of
           Some (DMX weight name) \<Rightarrow>
             then_do (buf16 weight) (\<lambda>w.
             then_do (encodeName enc (Some name) (2 + 2) True) (\<lambda>(n, enc'). Inr (w @ n, enc')))
         | Some (DSRV priority weight port target) \<Rightarrow> then_do (buf16 weight) (\<lambda>w. Inl JsTypeError)
         | other \<Rightarrow> Inl JsTypeError)
      else if k = ''IN SOA'' then
        (case d of
           Some (DSOA mname rname serial refresh retry expire ttl) \<Rightarrow>
             then_do (encodeName enc (Some mname) 2 True) (\<lambda>(mName, enc1).
             then_do (encodeName enc1 (Some (soa_mail rname)) (2 + length mName) True) (\<lambda>(rName, enc2).
             then_do (buf32 serial) (\<lambda>b1.
             then_do (buf32 refresh) (\<lambda>b2.
             then_do (buf32 retry) (\<lambda>b3.
             then_do (buf32 expire) (\<lambda>b4.
             then_do (buf32 ttl) (\<lambda>b5.
             Inr (mName @ rName @ b1 @ b2 @ b3 @ b4 @ b5, enc2))))))))
         | other \<Rightarrow> Inl JsTypeError)
      else if k = ''IN NS'' \<or> k = ''IN PTR'' \<or> k = ''IN CNAME'' then
        (case d of
           Some (DString s) \<Rightarrow> encodeName enc (Some s) 2 True
         | other \<Rightarrow> Inl JsTypeError)
      else if k = ''IN TXT'' then
        Inr (concat (map txt_chunk (case d of Some (DStrings ss) \<Rightarrow> ss | other \<Rightarrow> [js_String other])),
             enc)
      else if k = ''IN SRV'' then
        (case d of
           Some (DSRV priority weight port target) \<Rightarrow>
             then_do (buf16 priority) (\<lambda>b1.
             then_do (buf16 weight) (\<lambda>b2.
             then_do (buf16 port) (\<lambda>b3.
             then_do (encodeName enc (Some target) (2 + 6) False) (\<lambda>(t, enc').
             Inr (b1 @ b2 @ b3 @ t, enc')))))
         | Some (DMX weight name) \<Rightarrow> then_do (buf16 weight) (\<lambda>w. Inl JsTypeError)
         | other \<Rightarrow> Inl JsTypeError)
      else if k = ''IN DS'' then
        (case d of
           Some (DDS keyTag algorithm digestType digest) \<Rightarrow>
             then_do (buf16 (case keyTag of Some n \<Rightarrow> n | None \<Rightarrow> 0)) (\<lambda>b1.
             Inr (b1 @ [word_of_nat (case algorithm of Some n \<Rightarrow> n | None \<Rightarrow> 0),
                        word_of_nat (case digestType of Some n \<Rightarrow> n | None \<Rightarrow> 0)]
                     @ map word_of_nat digest, enc))
         | other \<Rightarrow> Inl JsTypeError)
      else if k = ''NONE A'' then Inr ([], enc)
      else Inl UnsupportedType)"

text \<open>\<open>record( sectionName, record )\<close>\<close>

definition Encoder_record :: "encoder \<Rightarrow> sect \<Rightarrow> dns_record \<Rightarrow> error + encoder" where
  "Encoder_record enc sectionName rec =
     then_do (encodeName enc (r_name rec) 0 True) (\<lambda>(name, enc).
     let enc = advance enc (length name) in
     then_do (typeToNumber (r_type rec)) (\<lambda>typ.
     then_do (classToNumber (r_class rec)) (\<lambda>classValue.
     then_do (write_looked_up typ) (\<lambda>tbuf.
     let enc = advance enc 2 in
     then_do (write_looked_up classValue) (\<lambda>cbuf.
     let enc = advance enc 2 in
     if sectionName \<noteq> Question then
       then_do (buf32 (case r_ttl rec of Some t \<Rightarrow> t | None \<Rightarrow> 0)) (\<lambda>ttl.
       let enc = advance enc 4 in
       then_do (encode_rdata enc (kind (the (r_class rec)) (the (r_type rec))) (r_data rec))
         (\<lambda>(rdata, enc).
       then_do (buf16 (length rdata)) (\<lambda>len.
       let enc = advance enc (2 + length rdata) in
       Inr (push_record enc sectionName (name @ tbuf @ cbuf @ ttl @ len @ rdata)))))
     else Inr (push_record enc sectionName (name @ tbuf @ cbuf)))))))"

text \<open>
  \<open>( edns.extendedResult & 0xff ) << 24\<close>: the shift yields a signed 32-bit integer.
\<close>

definition shl24 :: "int \<Rightarrow> int" where
  "shl24 e = (let v = (e mod 256) * 16777216 in if v \<ge> 2147483648 then v - 4294967296 else v)"

text \<open>The options of an OPT record: code and length, then the data.\<close>

fun encode_options :: "(nat \<times> bytes) list \<Rightarrow> error + bytes" where
  "encode_options [] = Inr []"
| "encode_options ((code, data) # rest) =
     (case buf16 code of
        Inl e \<Rightarrow> Inl e
      | Inr c \<Rightarrow>
          (case buf16 (length data) of
             Inl e \<Rightarrow> Inl e
           | Inr l \<Rightarrow>
               (case encode_options rest of
                  Inl e \<Rightarrow> Inl e
                | Inr bs \<Rightarrow> Inr (c @ l @ data @ bs))))"

text \<open>
  \<open>ednsRecord( sectionName, record )\<close>. The eight octets after the name are the type
  41, the UDP size, and \<open>flags\<close> written by \<open>buf.writeUInt16BE( flags, 4 )\<close>; the octets
  6 and 7 stay zero. The position advances by the name and these eight octets.
\<close>

definition Encoder_ednsRecord :: "encoder \<Rightarrow> sect \<Rightarrow> edns_data \<Rightarrow> error + encoder" where
  "Encoder_ednsRecord enc sectionName edns =
     then_do (encodeName enc (Some []) 0 True) (\<lambda>(name, enc).
     let enc = advance enc (length name);
         flgs = shl24 (extendedResult edns) + int ((version edns mod 256) * 65536)
                + (if flagDO edns then 32768 else 0) in
     then_do (buf16 41) (\<lambda>b0.
     then_do (buf16 (udpSize edns)) (\<lambda>b2.
     then_do (writeUInt16BE flgs) (\<lambda>b4.
     let enc = advance enc 8 in
     then_do (encode_options (options edns)) (\<lambda>opts.
     then_do (buf16 (length opts)) (\<lambda>optionsLength.
     Inr (push_record enc sectionName (name @ b0 @ b2 @ b4 @ [0, 0] @ optionsLength @ opts))))))))"

text \<open>The records of one section, and the sections in the order of \<open>SECTIONS\<close>.\<close>

fun encode_records :: "encoder \<Rightarrow> sect \<Rightarrow> dns_record list \<Rightarrow> error + encoder" where
  "encode_records enc s [] = Inr enc"
| "encode_records enc s (r # rs) =
     (case (case r_edns r of Some edns \<Rightarrow> Encoder_ednsRecord enc s edns
                          | None \<Rightarrow> Encoder_record enc s r) of
        Inl e \<Rightarrow> Inl e
      | Inr enc' \<Rightarrow> encode_records enc' s rs)"

fun encode_sections :: "encoder \<Rightarrow> dns_message \<Rightarrow> sect list \<Rightarrow> error + encoder" where
  "encode_sections enc msg [] = Inr enc"
| "encode_sections enc msg (s # ss) =
     (case encode_records enc s (section_of msg s) of
        Inl e \<Rightarrow> Inl e
      | Inr enc' \<Rightarrow> encode_sections enc' msg ss)"

text \<open>\<open>opcodeNames.indexOf( msg.opcode )\<close>, for an opcode that is a string.\<close>

definition opcode_index :: "string \<Rightarrow> nat option" where
  "opcode_index name =
     (if Some name \<in> set opcodeNames
      then Some (length (takeWhile (\<lambda>x. x \<noteq> Some name) opcodeNames)) else None)"

definition flag_bit :: "bool \<Rightarrow> nat \<Rightarrow> nat" where
  "flag_bit b v = (if b then v else 0)"

text \<open>
  \<open>message( msg )\<close> followed by \<open>toBinary()\<close>: the twelve octets of the header, then the
  buffers of the four sections.
\<close>

definition Encoder_message :: "dns_message \<Rightarrow> error + bytes" where
  "Encoder_message msg =
     then_do (buf16 (case m_id msg of Some i \<Rightarrow> i | None \<Rightarrow> 0)) (\<lambda>ident.
     case (case m_opcode msg of Some name \<Rightarrow> opcode_index name | None \<Rightarrow> None) of
       None \<Rightarrow> Inl UnknownOpcode
     | Some opcode \<Rightarrow>
         let byte2 = flag_bit (m_type msg = Some ''response'') 0x80
                     + flag_bit (m_authoritative msg) 0x04
                     + flag_bit (m_truncated msg) 0x02
                     + flag_bit (m_recursionDesired msg) 0x01
                     + (opcode mod 16) * 8;
             byte3 = flag_bit (m_recursionAvailable msg) 0x80
                     + flag_bit (m_authenticated msg) 0x20
                     + flag_bit (m_checkingDisabled msg) 0x10
                     + (case m_responseCode msg of Some r \<Rightarrow> r mod 16 | None \<Rightarrow> 0)
         in
         then_do (encode_sections (new_Encoder\<lparr>e_position := 12\<rparr>) msg SECTIONS) (\<lambda>enc.
         then_do (buf16 (length (e_question enc))) (\<lambda>qd.
         then_do (buf16 (length (e_answer enc))) (\<lambda>an.
         then_do (buf16 (length (e_authority enc))) (\<lambda>ns.
         then_do (buf16 (length (e_additional enc))) (\<lambda>ar.
         Inr (ident @ [word_of_nat byte2, word_of_nat byte3] @ qd @ an @ ns @ ar
              @ concat (e_question enc) @ concat (e_answer enc)
              @ concat (e_authority enc) @ concat (e_additional enc))))))))"

section \<open>message.js and index.js: construction from an object, encode\<close>

text \<open>
  \<open>new DNSMessage( body )\<close> for a \<open>body\<close> that is an object and not a buffer:
  \<open>Object.assign( this, body )\<close>, and then, for every section,
  \<open>const records = this[section] = []\<close>. The properties of \<open>body\<close> are given as a
  \<open>dns_message\<close>.
\<close>

definition DNSMessage_of_object :: "dns_message \<Rightarrow> dns_message" where
  "DNSMessage_of_object body =
     body\<lparr>m_question := [], m_answer := [], m_authority := [], m_additional := []\<rparr>"

text \<open>\<open>toBinary()\<close>: \<open>new Encoder().message( this ).toBinary()\<close>\<close>

definition toBinary :: "dns_message \<Rightarrow> error + bytes" where
  "toBinary msg = Encoder_message msg"

text \<open>
  The argument of \<open>encode( message )\<close>: an instance of \<open>DNSMessage\<close>, or another object,
  from which a \<open>DNSMessage\<close> is constructed first.
\<close>

datatype encode_argument = Instance dns_message | PlainObject dns_message

definition encode :: "encode_argument \<Rightarrow> error + bytes" where
  "encode message =
     (case message of
        Instance m \<Rightarrow> toBinary m
      | PlainObject body \<Rightarrow> toBinary (DNSMessage_of_object body))"

section \<open>server.js: zones, responses and framing\<close>

text \<open>
  The server: its zones (the own properties of the plain object \<open>this.zones\<close>, keyed by
  zone name; a zone named \<open>__proto__\<close> is not considered) and \<open>this.options.ttl\<close>.
\<close>

record server =
  zones :: "string \<rightharpoonup> dns_record"
  options_ttl :: nat

text \<open>
  What \<open>this.connection.server.zones[name]\<close> evaluates to when it is truthy: a
  registered SOA record, or the function or object that \<open>Object.prototype\<close> holds under
  that name.
\<close>

datatype zone_value = Zone dns_record | InheritedValue string

definition zones_get :: "server \<Rightarrow> string \<Rightarrow> zone_value option" where
  "zones_get srv name =
     (case zones srv name of
        Some soaRecord \<Rightarrow> Some (Zone soaRecord)
      | None \<Rightarrow> if name \<in> set object_prototype_keys then Some (InheritedValue name) else None)"

text \<open>
  \<open>findZoneForName( name )\<close>: the value found, or \<open>null\<close> (\<open>None\<close>). The regular
  expression is the one of \<open>encodeName\<close>.
\<close>

function findZoneForName :: "server \<Rightarrow> string \<Rightarrow> error + zone_value option" where
  "findZoneForName srv name =
     (if name = [] then Inr None
      else case zones_get srv name of
             Some soaRecord \<Rightarrow> Inr (Some soaRecord)
           | None \<Rightarrow>
               (case split_label name of
                  None \<Rightarrow> Inl InvalidName
                | Some (segment, rest) \<Rightarrow> findZoneForName srv rest))"
  by pat_completeness auto
termination
proof (relation "measure (\<lambda>(srv, name). length name)")
  show "wf (measure (\<lambda>(srv, name). length name))"
    by simp
next
  fix srv :: server and name :: string and x2 :: "string \<times> string" and segment rest :: string
  assume "split_label name = Some x2" and "(segment, rest) = x2"
  then have s: "split_label name = Some (segment, rest)" by simp
  have "length (dropWhile label_char name) \<le> length name"
    by (rule length_dropWhile_le)
  with s have "length rest < length name"
    by (auto simp: split_label_def Let_def split: if_splits list.splits)
  then show "((srv, rest), (srv, name)) \<in> measure (\<lambda>(srv, name). length name)"
    by simp
qed

declare findZoneForName.simps [simp del]

text \<open>
  \<open>findEDNSRecords()\<close> is a method of the \<open>DNSMessage\<close> that server.js requires; the
  message.js of the sources does not have it. Its callers read \<open>.length\<close> of the result and,
  of an element, \<open>.section\<close> and \<open>.record\<close> (whose \<open>edns\<close> they read).

  Modelled from the spec: the OPT pseudo-records of the message (the records that carry
  \<open>edns\<close>), each with the section it stands in, in the order of the sections.
\<close>

definition findEDNSRecords :: "dns_message \<Rightarrow> (sect \<times> dns_record) list" where
  "findEDNSRecords msg =
     concat (map (\<lambda>s. map (\<lambda>r. (s, r)) (filter (\<lambda>r. r_edns r \<noteq> None) (section_of msg s))) SECTIONS)"

text \<open>
  \<open>RCODES\<close> is imported from constants.js, whose version in the sources does not export it.

  Modelled from the spec: \<open>FORMERR\<close> is 1 and \<open>BADVERS\<close> is 16.
\<close>

definition RCODE_FORMERR :: nat where
  "RCODE_FORMERR = 1"

definition RCODE_BADVERS :: nat where
  "RCODE_BADVERS = 16"

text \<open>A \<open>DNSResponse\<close>: a message with \<open>requestorEDNS\<close>.\<close>

record dns_response =
  rs_msg :: dns_message
  rs_requestorEDNS :: "edns_data option"

text \<open>
  The constructor of \<open>DNSResponse\<close>, after \<open>super( data )\<close> has built the message.
  \<open>ednsRecords.record\<close> is a property of the array, which is undefined, so reading
  \<open>ednsRecords.record.edns\<close> raises a \<open>TypeError\<close>; this is evaluated when there is exactly
  one OPT record and it stands in the additional section.
\<close>

definition DNSResponse_ctor :: "dns_message \<Rightarrow> error + dns_response" where
  "DNSResponse_ctor msg =
     (let ednsRecords = findEDNSRecords msg in
      if length ednsRecords = 1 \<and> fst (hd ednsRecords) = Additional then Inl JsTypeError
      else Inr \<lparr>rs_msg = msg\<lparr>m_type := Some ''response''\<rparr>, rs_requestorEDNS = None\<rparr>)"

text \<open>What a socket does for the server: the effects of one \<open>send\<close>, and the request event.\<close>

datatype transport = UDP | TCP

datatype effect =
    Datagram bytes                     \<comment> \<open>\<open>this.udp.send( response, ... )\<close>\<close>
  | ConnectionEnd "bytes option"       \<comment> \<open>\<open>connection.end()\<close>, \<open>connection.end( data )\<close>\<close>
  | RequestEvent dns_message dns_response  \<comment> \<open>\<open>this.emit( "request", request, response )\<close>\<close>

text \<open>
  \<open>socket.send( response )\<close> of \<open>onUdp\<close> and of \<open>onTcpConnection\<close>; \<open>null\<close> is \<open>None\<close>. A
  \<open>throw\<close> inside the promise's executor rejects the promise.
\<close>

definition socket_send :: "transport \<Rightarrow> bytes option \<Rightarrow> error + effect list" where
  "socket_send t response =
     (case t of
        UDP \<Rightarrow> (case response of
                  None \<Rightarrow> Inr []
                | Some b \<Rightarrow> if length b > 512 then Inl Rejected else Inr [Datagram b])
      | TCP \<Rightarrow> (case response of
                  None \<Rightarrow> Inr [ConnectionEnd None]
                | Some b \<Rightarrow> if length b > 65535 then Inl Rejected
                            else Inr [ConnectionEnd (Some (word_of_nat (length b div 256)
                                                            # word_of_nat (length b mod 256) # b))]))"

text \<open>\<open>addEDNSReply( response, requestorEDNS )\<close>: the record pushed to \<open>response.additional\<close>.\<close>

definition edns_reply :: "edns_data option \<Rightarrow> dns_record" where
  "edns_reply requestorEDNS =
     \<lparr>r_name = Some [], r_type = Some ''OPT'', r_class = Some ''IN'', r_ttl = None, r_data = None,
      r_edns = Some \<lparr>udpSize = max (case requestorEDNS of
                                       Some e \<Rightarrow> if udpSize e = 0 then 512 else udpSize e
                                     | None \<Rightarrow> 512) 512,
                     extendedResult = 0, version = 0, flagDO = False, flags = 0, options = []\<rparr>\<rparr>"

definition addEDNSReply :: "dns_message \<Rightarrow> edns_data option \<Rightarrow> dns_message" where
  "addEDNSReply response requestorEDNS =
     response\<lparr>m_additional := m_additional response @ [edns_reply requestorEDNS]\<rparr>"

text \<open>\<open>wellFormedRecord( record, minTTL )\<close>\<close>

definition wellFormedRecord :: "nat \<Rightarrow> dns_record \<Rightarrow> dns_record" where
  "wellFormedRecord minTTL rec =
     (let rec = (if r_class rec = None \<or> r_class rec = Some [] then rec\<lparr>r_class := Some ''IN''\<rparr>
                 else rec)
      in if (r_ttl rec = None \<or> r_ttl rec = Some 0) \<and> r_edns rec = None
         then rec\<lparr>r_ttl := Some minTTL\<rparr> else rec)"

text \<open>The argument of \<open>end( value )\<close>; every other value is treated as \<open>undefined\<close>.\<close>

datatype end_value =
    NoValue
  | Records "dns_record list"         \<comment> \<open>an array\<close>
  | Replacement dns_message
      \<comment> \<open>another object: the message that \<open>super( value )\<close> constructs from it\<close>
  | Text string

text \<open>\<open>question.kind()\<close>: a class or type that is \<open>null\<close> prints as \<open>null\<close>.\<close>

definition kind_of :: "dns_record \<Rightarrow> string" where
  "kind_of rec = kind (case r_class rec of Some c \<Rightarrow> c | None \<Rightarrow> ''null'')
                      (case r_type rec of Some t \<Rightarrow> t | None \<Rightarrow> ''null'')"

text \<open>
  The body of \<open>for ( const question of questions )\<close> of \<open>end\<close>, on the sections of
  \<open>that\<close>. \<open>is_text\<close> holds the string passed to \<open>end\<close>, if one was. A value found for the
  zone that is not a record has no \<open>data\<close>, so \<open>soaRecord.data.ttl\<close> raises a \<open>TypeError\<close>.
\<close>

definition end_question :: "server \<Rightarrow> string option \<Rightarrow> nat \<Rightarrow> dns_message \<Rightarrow> dns_record
    \<Rightarrow> error + dns_message" where
  "end_question srv is_text n_questions that question =
     (case r_name question of
        None \<Rightarrow> Inl JsTypeError
      | Some qname \<Rightarrow>
          then_do (findZoneForName srv qname) (\<lambda>found.
          case found of
            None \<Rightarrow> Inr that
          | Some soaValue \<Rightarrow>
              if kind_of question = ''IN A'' \<and> is_text \<noteq> None \<and> m_answer that = []
                 \<and> n_questions > 1
              then Inl Rejected
              else
                (case soaValue of
                   InheritedValue key \<Rightarrow> Inl JsTypeError
                 | Zone soaRecord \<Rightarrow>
                     let that =
                           (if kind_of question = ''IN A'' \<and> is_text \<noteq> None \<and> m_answer that = []
                            then that\<lparr>m_answer := m_answer that
                                   @ [\<lparr>r_name = Some qname, r_type = Some ''A'', r_class = Some ''IN'',
                                       r_ttl = None, r_data = map_option DString is_text,
                                       r_edns = None\<rparr>]\<rparr>
                            else if kind_of question = ''IN SOA'' \<and> n_questions = 1
                                    \<and> m_answer that = [] \<and> r_name soaRecord = Some qname
                            then that\<lparr>m_answer := m_answer that @ [soaRecord]\<rparr>
                            else that);
                         that =
                           (if n_questions = 1 \<and> m_answer that = [] \<and> m_authority that = []
                            then that\<lparr>m_authority := m_authority that @ [soaRecord]\<rparr>
                            else that)
                     in (case r_data soaRecord of
                           Some (DSOA mname rname serial refresh retry expire ttl) \<Rightarrow>
                             let minTTL = max (if ttl = 0 then 1 else ttl) 1 in
                             Inr (that\<lparr>m_answer := map (wellFormedRecord minTTL) (m_answer that),
                                       m_authority := map (wellFormedRecord minTTL) (m_authority that),
                                       m_additional := map (wellFormedRecord minTTL) (m_additional that)\<rparr>)
                         | other \<Rightarrow> Inl JsTypeError))))"

fun end_questions :: "server \<Rightarrow> string option \<Rightarrow> nat \<Rightarrow> dns_message \<Rightarrow> dns_record list
    \<Rightarrow> error + dns_message" where
  "end_questions srv is_text n that [] = Inr that"
| "end_questions srv is_text n that (q # qs) =
     (case end_question srv is_text n that q of
        Inl e \<Rightarrow> Inl e
      | Inr that' \<Rightarrow> end_questions srv is_text n that' qs)"

text \<open>
  \<open>ednsResponse.edns.extendedResult = ...\<close>, where \<open>ednsResponse\<close> is the first OPT record
  of the response: the first record with \<open>edns\<close> in the order of the sections.
\<close>

fun update_first_edns :: "int \<Rightarrow> dns_record list \<Rightarrow> (dns_record list) option" where
  "update_first_edns x [] = None"
| "update_first_edns x (r # rs) =
     (case r_edns r of
        Some e \<Rightarrow> Some (r\<lparr>r_edns := Some (e\<lparr>extendedResult := x\<rparr>)\<rparr> # rs)
      | None \<Rightarrow> map_option (\<lambda>rs'. r # rs') (update_first_edns x rs))"

definition set_first_edns :: "dns_message \<Rightarrow> int \<Rightarrow> dns_message" where
  "set_first_edns msg x =
     (case update_first_edns x (m_question msg) of
        Some rs \<Rightarrow> msg\<lparr>m_question := rs\<rparr>
      | None \<Rightarrow>
     (case update_first_edns x (m_answer msg) of
        Some rs \<Rightarrow> msg\<lparr>m_answer := rs\<rparr>
      | None \<Rightarrow>
     (case update_first_edns x (m_authority msg) of
        Some rs \<Rightarrow> msg\<lparr>m_authority := rs\<rparr>
      | None \<Rightarrow>
     (case update_first_edns x (m_additional msg) of
        Some rs \<Rightarrow> msg\<lparr>m_additional := rs\<rparr>
      | None \<Rightarrow> msg))))"

text \<open>
  \<open>end( value )\<close> up to its last statement: the two responses \<open>this\<close> and \<open>that\<close> as they
  are then (one object unless \<open>value\<close> is a replacement), and the argument of
  \<open>that.connection.send\<close>: \<open>that.answer.length > 0 || this.authority.length > 0 ?
  that.toBinary() : null\<close>.

  A replacement is constructed by \<open>new DNSResponse( value, this.connection )\<close>. The EDNS
  record of the response is looked for in \<open>this\<close> and added to \<open>this\<close>. Records are
  values here: that the SOA record pushed to a section is the object the zone holds does
  not matter within one call.
\<close>

definition end_prepare :: "server \<Rightarrow> dns_response \<Rightarrow> end_value
    \<Rightarrow> error + (dns_response \<times> dns_response \<times> bool)" where
  "end_prepare srv this value =
     (case value of
        Replacement body \<Rightarrow>
          then_do (DNSResponse_ctor body) (\<lambda>that. Inr (this, that, False))
      | Records rs \<Rightarrow>
          (let this = this\<lparr>rs_msg := (rs_msg this)\<lparr>m_answer := m_answer (rs_msg this) @ rs\<rparr>\<rparr>
           in Inr (this, this, True))
      | other \<Rightarrow> Inr (this, this, True))"

definition end_final :: "server \<Rightarrow> dns_response \<Rightarrow> end_value
    \<Rightarrow> error + (dns_message \<times> dns_message \<times> bytes option)" where
  "end_final srv this0 value =
     then_do (end_prepare srv this0 value) (\<lambda>(this, that0, same).
     let is_text = (case value of Text s \<Rightarrow> Some s | other \<Rightarrow> None);
         that1 = (rs_msg that0)\<lparr>m_recursionAvailable := False, m_authoritative := True\<rparr> in
     then_do (end_questions srv is_text (length (m_question that1)) that1 (m_question that1))
       (\<lambda>that.
     let this_msg = (if same then that else rs_msg this);
         ednsRecords = findEDNSRecords this_msg;
         extended = (case m_responseCode this_msg of Some r \<Rightarrow> r > 15 | None \<Rightarrow> False) in
     if (rs_requestorEDNS this \<noteq> None \<or> extended) \<and> length ednsRecords > 1 then Inl Rejected
     else
       let this_msg =
             (if (rs_requestorEDNS this \<noteq> None \<or> extended) \<and> ednsRecords = []
              then addEDNSReply this_msg (rs_requestorEDNS this) else this_msg);
           this_msg =
             (if extended
              then set_first_edns this_msg
                     (int (((case m_responseCode this_msg of Some c \<Rightarrow> c | None \<Rightarrow> 0)
                            mod 4096) div 16))
              else this_msg);
           that = (if same then this_msg else that)
       in if m_answer that \<noteq> [] \<or> m_authority this_msg \<noteq> []
          then then_do (toBinary that) (\<lambda>b. Inr (this_msg, that, Some b))
          else Inr (this_msg, that, None)))"

text \<open>\<open>end( value )\<close>: what the socket is asked to do.\<close>

definition DNSResponse_end :: "transport \<Rightarrow> server \<Rightarrow> dns_response \<Rightarrow> end_value
    \<Rightarrow> error + effect list" where
  "DNSResponse_end t srv this value =
     then_do (end_final srv this value) (\<lambda>(this', that, payload). socket_send t payload)"


text \<open>
  \<open>respondOnInvalidEDNS( response, requestorEDNS, resultCode )\<close>. A rejection of the
  promise that \<open>end\<close> returns is caught and logged; an exception that \<open>end\<close> throws is not.
\<close>

definition respondOnInvalidEDNS :: "transport \<Rightarrow> server \<Rightarrow> dns_response \<Rightarrow> edns_data option \<Rightarrow> nat
    \<Rightarrow> error + effect list" where
  "respondOnInvalidEDNS t srv response requestorEDNS resultCode =
     (let response = response\<lparr>rs_msg := (addEDNSReply (rs_msg response) requestorEDNS)
                                          \<lparr>m_responseCode := Some resultCode\<rparr>\<rparr>
      in case DNSResponse_end t srv response NoValue of
           Inl Rejected \<Rightarrow> Inr []
         | other \<Rightarrow> other)"

text \<open>
  What \<open>onUdp\<close> and the data handler of \<open>onTcpConnection\<close> do with a message once
  \<open>new DNSRequest( message, socket )\<close> has parsed it to \<open>request\<close>: construct the response
  from the same octets, then \<open>isValidEDNS\<close> and the request event.
\<close>

definition handle_message :: "transport \<Rightarrow> server \<Rightarrow> dns_message \<Rightarrow> error + effect list" where
  "handle_message t srv request =
     then_do (DNSResponse_ctor request) (\<lambda>response.
     let records = findEDNSRecords request in
     if length records > 1 \<or> (length records = 1 \<and> fst (hd records) \<noteq> Additional)
     then respondOnInvalidEDNS t srv response None RCODE_FORMERR
     else if length records = 1
             \<and> (case r_edns (snd (hd records)) of Some e \<Rightarrow> version e > 0 | None \<Rightarrow> False)
     then respondOnInvalidEDNS t srv response (r_edns (snd (hd records))) RCODE_BADVERS
     else Inr [RequestEvent request response])"

text \<open>The variables of one TCP connection: \<open>expecting\<close>, \<open>received\<close> and \<open>chunks\<close>.\<close>

record tcp_state =
  expecting :: int
  received :: int
  chunks :: "bytes list"

definition tcp_initial :: tcp_state where
  "tcp_initial = \<lparr>expecting = -1, received = 0, chunks = []\<rparr>"

text \<open>
  \<open>while ( chunks[0].length < 2 ) chunks.splice( 0, 2, Buffer.concat( chunks.slice( 0, 2 ) ) )\<close>.
  With a single chunk of fewer than two octets the loop replaces the chunk by itself and
  never ends: \<open>None\<close>. With no chunk at all \<open>chunks[0].length\<close> raises a \<open>TypeError\<close>.
\<close>

fun merge_head :: "bytes list \<Rightarrow> (error + bytes list) option" where
  "merge_head [] = Some (Inl JsTypeError)"
| "merge_head [c] = (if length c < 2 then None else Some (Inr [c]))"
| "merge_head (c # d # rest) =
     (if length c < 2 then merge_head ((c @ d) # rest) else Some (Inr (c # d # rest)))"

text \<open>
  The handler of the \<open>data\<close> event. \<open>dispatch\<close> stands for the statements that construct
  the request and the response from the message and emit the request event; an exception
  they raise leaves the handler. After a message, \<open>expecting = -1\<close> is assigned before
  \<open>received = buf.length - expecting\<close> and \<open>buf.slice( expecting )\<close> are evaluated.
  The result is \<open>None\<close> when the handler does not return.
\<close>

definition onData :: "(bytes \<Rightarrow> error + 'ev list) \<Rightarrow> tcp_state \<Rightarrow> bytes
    \<Rightarrow> (error + tcp_state \<times> 'ev list) option" where
  "onData dispatch st chunk =
     (let chunks1 = chunks st @ [chunk];
          received1 = received st + int (length chunk) in
      case (if expecting st < 0 \<and> received1 \<ge> 2
            then map_option (\<lambda>m. then_do m (\<lambda>cs. then_do (readUInt16BE (hd cs) 0)
                                  (\<lambda>len. Inr (cs, int len)))) (merge_head chunks1)
            else Some (Inr (chunks1, expecting st))) of
        None \<Rightarrow> None
      | Some (Inl e) \<Rightarrow> Some (Inl e)
      | Some (Inr (chunks2, expecting2)) \<Rightarrow>
          if expecting2 > -1 \<and> received1 \<ge> 2 + expecting2 then
            (let buf = drop 2 (concat chunks2);
                 message = take (nat expecting2) buf in
             Some (then_do (dispatch message) (\<lambda>events.
               let expecting3 = -1;
                   received3 = int (length buf) - expecting3 in
               Inr (\<lparr>expecting = expecting3, received = received3,
                      chunks = (if received3 > 0 then [drop (length buf - 1) buf] else [])\<rparr>,
                    events))))
          else Some (Inr (\<lparr>expecting = expecting2, received = received1, chunks = chunks2\<rparr>, [])))"

section \<open>Auxiliary definitions\<close>

text \<open>The (label, key) pairs that \<open>transpose\<close> assigns, in the order it assigns them.\<close>

definition label_pairs :: "(nat \<times> string option) list \<Rightarrow> (string \<times> nat) list" where
  "label_pairs m = List.map_filter (\<lambda>(k, lo). map_option (\<lambda>l. (l, k)) lo) m"

text \<open>
  Names by their labels. A label as the regular expression of \<open>encodeName\<close> and
  \<open>findZoneForName\<close> accepts it: 1 to 63 characters, none of them a dot or whitespace.
\<close>

definition valid_label :: "string \<Rightarrow> bool" where
  "valid_label l = (l \<noteq> [] \<and> length l \<le> 63 \<and> list_all label_char l)"

text \<open>
  What may follow the dot after a label: a name that starts with a label character and
  holds no line terminator.
\<close>

definition name_tail :: "string \<Rightarrow> bool" where
  "name_tail s = (s \<noteq> [] \<and> label_char (hd s) \<and> list_all (\<lambda>x. \<not> is_line_terminator x) s)"

text \<open>The name made of the labels \<open>pre\<close>, each followed by a dot, and then \<open>suf\<close>.\<close>

fun prepend_labels :: "string list \<Rightarrow> string \<Rightarrow> string" where
  "prepend_labels [] suf = suf"
| "prepend_labels (l # pre) suf = l @ CHR ''.'' # prepend_labels pre suf"

text \<open>The suffixes of that name that are longer than \<open>suf\<close>, the longest first.\<close>

fun longer_suffixes :: "string list \<Rightarrow> string \<Rightarrow> string list" where
  "longer_suffixes [] suf = []"
| "longer_suffixes (l # pre) suf = prepend_labels (l # pre) suf # longer_suffixes pre suf"


text \<open>
  The combinations of class and type that \<open>DNSRecord.parse\<close> has a case for. The encoder
  has a case for each of them but \<open>IN OPT\<close>.
\<close>

definition supported_kinds :: "string list" where
  "supported_kinds =
     [''IN A'', ''IN AAAA'', ''IN NS'', ''IN CNAME'', ''IN PTR'', ''IN TXT'', ''IN MX'',
      ''IN SRV'', ''IN SOA'', ''IN DS'', ''IN OPT'', ''NONE A'']"

text \<open>
  A record of the wire, and a record of a message, whose class and type are not one of
  these combinations (an OPT pseudo-record set aside).
\<close>

definition raw_unsupported :: "raw_record \<Rightarrow> bool" where
  "raw_unsupported r =
     (case (classToLabel (raw_class r), typeToLabel (Some (raw_type r))) of
        (Inr (Some c), Inr (Some t)) \<Rightarrow> kind c t \<notin> set supported_kinds
      | other \<Rightarrow> raw_edns r = None)"

definition record_unsupported :: "dns_record \<Rightarrow> bool" where
  "record_unsupported r =
     (r_edns r = None \<and>
      (case (r_class r, r_type r) of
         (Some c, Some t) \<Rightarrow> kind c t \<notin> set supported_kinds
       | other \<Rightarrow> True))"



section \<open>Example inputs\<close>

text \<open>
  A query whose question name, at offset 12, is a pointer to offset 14, where a pointer
  back to offset 12 stands.
\<close>

definition cycle_packet :: bytes where
  "cycle_packet = [0, 1, 0, 0, 0, 1, 0, 0, 0, 0, 0, 0, 0xC0, 0x0E, 0xC0, 0x0C, 0, 1, 0, 1]"

text \<open>A query of 18 octets whose question name is a pointer to offset 100.\<close>

definition far_packet :: bytes where
  "far_packet = [0, 1, 0, 0, 0, 1, 0, 0, 0, 0, 0, 0, 0xC0, 0x64, 0, 1, 0, 1]"

text \<open>
  Two questions: the name \<open>a\<close> at offset 12, and at offset 19 the label \<open>b\<close> followed
  by a pointer to offset 12.
\<close>

definition two_names_packet :: bytes where
  "two_names_packet =
     [0, 1, 0, 0, 0, 2, 0, 0, 0, 0, 0, 0,
      1, 0x61, 0, 0, 1, 0, 1,
      1, 0x62, 0xC0, 0x0C, 0, 1, 0, 1]"


text \<open>
  The message of the README's encoding example, and the octets the README prints for it.
\<close>

definition txt_query :: dns_message where
  "txt_query =
     \<lparr>m_id = Some 123, m_type = Some ''request'', m_responseCode = None,
      m_opcode = Some ''query'', m_authoritative = False, m_truncated = False,
      m_recursionDesired = True, m_recursionAvailable = False, m_authenticated = False,
      m_checkingDisabled = False,
      m_question = [\<lparr>r_name = Some ''example.com'', r_type = Some ''TXT'', r_class = Some ''IN'',
                      r_ttl = None, r_data = None, r_edns = None\<rparr>],
      m_answer = [], m_authority = [], m_additional = []\<rparr>"

definition txt_query_octets :: bytes where
  "txt_query_octets =
     [0x00, 0x7B, 0x01, 0x00, 0x00, 0x01, 0x00, 0x00, 0x00, 0x00, 0x00, 0x00,
      0x07, 0x65, 0x78, 0x61, 0x6D, 0x70, 0x6C, 0x65, 0x03, 0x63, 0x6F, 0x6D, 0x00,
      0x00, 0x10, 0x00, 0x01]"

text \<open>
  A response whose answer and authority records both have the owner \<open>example.com\<close>, and
  the encoder after the answer record has been written at offset 12.
\<close>

definition answer_record :: dns_record where
  "answer_record = \<lparr>r_name = Some ''example.com'', r_type = Some ''A'', r_class = Some ''IN'',
                     r_ttl = Some 60, r_data = Some (DString ''1.2.3.4''), r_edns = None\<rparr>"

definition authority_record :: dns_record where
  "authority_record = \<lparr>r_name = Some ''example.com'', r_type = Some ''NS'', r_class = Some ''IN'',
                        r_ttl = Some 60, r_data = Some (DString ''ns.example.com''),
                        r_edns = None\<rparr>"

definition compressed_response :: dns_message where
  "compressed_response =
     \<lparr>m_id = Some 1, m_type = Some ''response'', m_responseCode = Some 0,
      m_opcode = Some ''query'', m_authoritative = True, m_truncated = False,
      m_recursionDesired = False, m_recursionAvailable = False, m_authenticated = False,
      m_checkingDisabled = False,
      m_question = [], m_answer = [answer_record], m_authority = [authority_record],
      m_additional = []\<rparr>"

definition after_answer :: encoder where
  "after_answer =
     \<lparr>e_position = 39, e_question = [],
      e_answer = [[7, 0x65, 0x78, 0x61, 0x6D, 0x70, 0x6C, 0x65, 3, 0x63, 0x6F, 0x6D, 0,
                   0, 1, 0, 1, 0, 0, 0, 60, 0, 4, 1, 2, 3, 4]],
      e_authority = [], e_additional = [],
      e_domains = [''example.com'' \<mapsto> 12, ''com'' \<mapsto> 20]\<rparr>"


text \<open>
  A server with the zone \<open>example.com\<close>, registered as the README does.
\<close>

definition example_soa :: dns_record where
  "example_soa = \<lparr>r_name = Some ''example.com'', r_type = Some ''SOA'', r_class = Some ''IN'',
                   r_ttl = None,
                   r_data = Some (DSOA ''ns1.example.com'' ''us@example.com'' 1344403648
                                       7200 1800 1209600 600),
                   r_edns = None\<rparr>"

definition example_server :: server where
  "example_server = \<lparr>zones = [''example.com'' \<mapsto> example_soa], options_ttl = 3600\<rparr>"


text \<open>
  A response with one answer: owner \<open>a\<close>, type 13 (HINFO), class 1 (IN), TTL 60 and two
  octets of payload; and the same record as a message holds it.
\<close>

definition hinfo_packet :: bytes where
  "hinfo_packet =
     [0, 1, 0x80, 0, 0, 0, 0, 1, 0, 0, 0, 0,
      1, 0x61, 0, 0, 13, 0, 1, 0, 0, 0, 60, 0, 2, 0x41, 0x42]"

definition hinfo_raw :: raw_record where
  "hinfo_raw = \<lparr>raw_name = Some ''a'', raw_class = Some 1, raw_type = 13, raw_ttl = Some 60,
                 raw_data = Some [0x41, 0x42], raw_edns = None\<rparr>"

definition hinfo_record :: dns_record where
  "hinfo_record = \<lparr>r_name = Some ''a'', r_type = Some ''HINFO'', r_class = Some ''IN'',
                    r_ttl = Some 60, r_data = Some (DBuffer [0x41, 0x42]), r_edns = None\<rparr>"

definition hinfo_message :: dns_message where
  "hinfo_message =
     \<lparr>m_id = Some 1, m_type = Some ''response'', m_responseCode = Some 0,
      m_opcode = Some ''query'', m_authoritative = False, m_truncated = False,
      m_recursionDesired = False, m_recursionAvailable = False, m_authenticated = False,
      m_checkingDisabled = False,
      m_question = [], m_answer = [hinfo_record], m_authority = [], m_additional = []\<rparr>"


text \<open>
  A request for \<open>example.com\<close> with one OPT record of EDNS version 1 in its additional
  section, as a parsed message and on the wire; and the response that would carry
  BADVERS: response code 16 and an OPT record whose extended result is 1.
\<close>

definition opt_version1 :: dns_record where
  "opt_version1 =
     \<lparr>r_name = Some [], r_type = Some ''OPT'', r_class = Some ''IN'', r_ttl = None, r_data = None,
      r_edns = Some \<lparr>udpSize = 4096, extendedResult = 0, version = 1, flagDO = False, flags = 0,
                     options = []\<rparr>\<rparr>"

definition opt_request :: dns_message where
  "opt_request =
     \<lparr>m_id = Some 7, m_type = Some ''request'', m_responseCode = Some 0,
      m_opcode = Some ''query'', m_authoritative = False, m_truncated = False,
      m_recursionDesired = True, m_recursionAvailable = False, m_authenticated = False,
      m_checkingDisabled = False,
      m_question = [\<lparr>r_name = Some ''example.com'', r_type = Some ''A'', r_class = Some ''IN'',
                      r_ttl = None, r_data = None, r_edns = None\<rparr>],
      m_answer = [], m_authority = [], m_additional = [opt_version1]\<rparr>"

definition opt_request_octets :: bytes where
  "opt_request_octets =
     [0, 7, 1, 0, 0, 1, 0, 0, 0, 0, 0, 1,
      7, 0x65, 0x78, 0x61, 0x6D, 0x70, 0x6C, 0x65, 3, 0x63, 0x6F, 0x6D, 0, 0, 1, 0, 1,
      0, 0, 41, 0x10, 0, 0, 1, 0, 0, 0, 0]"

definition badvers_edns :: edns_data where
  "badvers_edns = \<lparr>udpSize = 4096, extendedResult = 1, version = 0, flagDO = False, flags = 0,
                    options = []\<rparr>"

definition badvers_response :: dns_message where
  "badvers_response =
     \<lparr>m_id = Some 7, m_type = Some ''response'', m_responseCode = Some 16,
      m_opcode = Some ''query'', m_authoritative = True, m_truncated = False,
      m_recursionDesired = True, m_recursionAvailable = False, m_authenticated = False,
      m_checkingDisabled = False,
      m_question = [], m_answer = [], m_authority = [],
      m_additional = [\<lparr>r_name = Some [], r_type = Some ''OPT'', r_class = Some ''IN'',
                        r_ttl = None, r_data = None, r_edns = Some badvers_edns\<rparr>]\<rparr>"

text \<open>
  A response to which the handler has pushed the zone's SOA record as authority, and
  the object \<open>{ id: 1, opcode: "query" }\<close> that the handler passes to \<open>end\<close>.
\<close>

definition response_with_authority :: dns_response where
  "response_with_authority =
     \<lparr>rs_msg = \<lparr>m_id = Some 7, m_type = Some ''response'', m_responseCode = Some 0,
                m_opcode = Some ''query'', m_authoritative = False, m_truncated = False,
                m_recursionDesired = True, m_recursionAvailable = False, m_authenticated = False,
                m_checkingDisabled = False,
                m_question = [\<lparr>r_name = Some ''example.com'', r_type = Some ''MX'',
                                r_class = Some ''IN'', r_ttl = None, r_data = None,
                                r_edns = None\<rparr>],
                m_answer = [], m_authority = [example_soa], m_additional = []\<rparr>,
      rs_requestorEDNS = None\<rparr>"

definition replacement_object :: dns_message where
  "replacement_object =
     \<lparr>m_id = Some 1, m_type = None, m_responseCode = None,
      m_opcode = Some ''query'', m_authoritative = False, m_truncated = False,
      m_recursionDesired = False, m_recursionAvailable = False, m_authenticated = False,
      m_checkingDisabled = False,
      m_question = [], m_answer = [], m_authority = [], m_additional = []\<rparr>"

text \<open>
  Two queries, each behind its two-octet length (29), in one chunk of a TCP stream.
\<close>

definition second_query_octets :: bytes where
  "second_query_octets =
     [0x00, 0x7C, 0x01, 0x00, 0x00, 0x01, 0x00, 0x00, 0x00, 0x00, 0x00, 0x00,
      0x07, 0x65, 0x78, 0x61, 0x6D, 0x70, 0x6C, 0x65, 0x03, 0x6F, 0x72, 0x67, 0x00,
      0x00, 0x10, 0x00, 0x01]"

definition two_queries_chunk :: bytes where
  "two_queries_chunk = [0, 29] @ txt_query_octets @ [0, 29] @ second_query_octets"


text \<open>
  The response to that request as the constructor of \<open>DNSResponse\<close> is meant to build it:
  the parsed request, marked as a response, with the request's EDNS data.
\<close>

definition opt_response :: dns_response where
  "opt_response = \<lparr>rs_msg = opt_request\<lparr>m_type := Some ''response''\<rparr>,
                    rs_requestorEDNS = r_edns opt_version1\<rparr>"


text \<open>
  A name with a line feed, \<open>b\<close> LF \<open>c\<close>, as the name of a zone and as an entry of the
  dictionary of an encoder.
\<close>

definition line_feed_name :: string where
  "line_feed_name = [CHR ''b'', CHR 0x0A, CHR ''c'']"


definition line_feed_encoder :: encoder where
  "line_feed_encoder = new_Encoder\<lparr>e_position := 17, e_domains := [line_feed_name \<mapsto> 12]\<rparr>"

section \<open>Properties of compileName\<close>

lemma cn_loop_reach:
  "cn_reach fullMessage offset s t \<Longrightarrow> cn_loop fullMessage offset s = cn_loop fullMessage offset t"
proof (induction rule: cn_reach.induct)
  case cn_reach_start
  show ?case by simp
next
  case (cn_reach_step t u)
  have "cn_loop fullMessage offset t = cn_loop fullMessage offset u"
    using cn_reach_step.hyps(2) by (subst cn_loop.simps) simp
  with cn_reach_step.IH show ?case by simp
qed

lemma cn_step_pointer:
  assumes "pointer_at (buffer st) (cursor st) = Some p"
  shows "length fullMessage \<le> p \<Longrightarrow> cn_step fullMessage offset st = Fail InvalidPointer"
    and "p < length fullMessage \<Longrightarrow> p \<in> set (pointersCache st)
         \<Longrightarrow> cn_step fullMessage offset st = Fail PointerCycle"
proof -
  from assms have inb: "cursor st + 1 < length (buffer st)"
    and tag: "(buffer st ! cursor st) AND 0xC0 = 0xC0"
    and p: "p = unat ((buffer st ! cursor st) AND 0x3F) * 256 + unat (buffer st ! (cursor st + 1))"
    by (simp_all add: pointer_at_def split: if_splits)
  show "length fullMessage \<le> p \<Longrightarrow> cn_step fullMessage offset st = Fail InvalidPointer"
    using inb tag p by (simp add: cn_step_def readUInt8_def Let_def)
  show "p < length fullMessage \<Longrightarrow> p \<in> set (pointersCache st)
         \<Longrightarrow> cn_step fullMessage offset st = Fail PointerCycle"
    using inb tag p by (simp add: cn_step_def readUInt8_def Let_def)
qed

text \<open>
  C1. Whenever the decoding of a name arrives at a compression pointer whose 14-bit
  offset is not below the length of the message, compileName fails with the
  out-of-bounds error; whenever it arrives at a pointer (inside the message) whose
  target is already among the pointer targets followed while decoding this name, it
  fails with the circular-reference error.
\<close>

theorem compileName_pointer_errors:
  assumes "offset \<le> length fullMessage"
    and "cn_reach fullMessage offset (cn_init fullMessage slc offset) st"
    and "pointer_at (buffer st) (cursor st) = Some p"
  shows "(length fullMessage \<le> p \<longrightarrow> compileName fullMessage slc offset = Inl InvalidPointer)
       \<and> (p < length fullMessage \<and> p \<in> set (pointersCache st)
            \<longrightarrow> compileName fullMessage slc offset = Inl PointerCycle)"
proof -
  have eq: "cn_loop fullMessage offset (cn_init fullMessage slc offset)
            = cn_loop fullMessage offset st"
    using assms(2) by (rule cn_loop_reach)
  have a: "length fullMessage \<le> p \<Longrightarrow> cn_loop fullMessage offset st = Inl InvalidPointer"
    using cn_step_pointer(1) [OF assms(3)] by (subst cn_loop.simps) simp
  have b: "p < length fullMessage \<Longrightarrow> p \<in> set (pointersCache st)
           \<Longrightarrow> cn_loop fullMessage offset st = Inl PointerCycle"
    using cn_step_pointer(2) [OF assms(3)] by (subst cn_loop.simps) simp
  show ?thesis
    using assms(1) eq a b by (auto simp: compileName_def)
qed

theorem compileName_pointer_errors_witness:
  "compileName far_packet None 12 = Inl InvalidPointer
   \<and> compileName cycle_packet None 12 = Inl PointerCycle"
proof -
  have far: "compileName far_packet None 12 = Inl InvalidPointer"
  proof -
    have off: "(12::nat) \<le> length far_packet" by (simp add: far_packet_def)
    have p: "pointer_at (buffer (cn_init far_packet None 12)) (cursor (cn_init far_packet None 12))
             = Some 100"
      by (simp add: pointer_at_def cn_init_def far_packet_def)
    have big: "length far_packet \<le> 100" by (simp add: far_packet_def)
    from compileName_pointer_errors [OF off cn_reach_start p] big show ?thesis by blast
  qed
  have cyc: "compileName cycle_packet None 12 = Inl PointerCycle"
  proof -
    let ?s1 = "\<lparr>buffer = cycle_packet, cursor = 14, segments = [], pointersCache = [14],
                numOctets = 2, metPointer = True\<rparr>"
    let ?s2 = "\<lparr>buffer = cycle_packet, cursor = 12, segments = [], pointersCache = [12, 14],
                numOctets = 2, metPointer = True\<rparr>"
    have off: "(12::nat) \<le> length cycle_packet" by (simp add: cycle_packet_def)
    have st1: "cn_step cycle_packet 12 (cn_init cycle_packet None 12) = Continue ?s1"
      by code_simp
    have st2: "cn_step cycle_packet 12 ?s1 = Continue ?s2"
      by code_simp
    have reach: "cn_reach cycle_packet 12 (cn_init cycle_packet None 12) ?s2"
      by (rule cn_reach_step [OF cn_reach_step [OF cn_reach_start st1] st2])
    have p: "pointer_at (buffer ?s2) (cursor ?s2) = Some 14"
      by (simp add: pointer_at_def cycle_packet_def)
    have seen: "14 < length cycle_packet \<and> 14 \<in> set (pointersCache ?s2)"
      by (simp add: cycle_packet_def)
    from compileName_pointer_errors [OF off reach p] seen show ?thesis by blast
  qed
  from far cyc show ?thesis by simp
qed

lemma cn_step_Done:
  assumes "cn_step fullMessage offset st = Done st1"
  shows "cursor st < length (buffer st)"
    and "(buffer st ! cursor st) AND 0xC0 = 0x00"
    and "unat ((buffer st ! cursor st) AND 0x3F) = 0"
    and "st1 = st\<lparr>cursor := cursor st + 1\<rparr>"
  using assms
  by (simp_all add: cn_step_def readUInt8_def Let_def split: if_splits sum.splits)

lemma cn_step_Continue:
  assumes "cn_step fullMessage offset st = Continue st1"
  shows "cursor st < length (buffer st)"
    and "(buffer st ! cursor st) AND 0xC0 = 0xC0 \<and> cursor st + 1 < length (buffer st)
           \<and> metPointer st1
           \<and> numOctets st1 = (if metPointer st then numOctets st else cursor st + 2 - offset)
         \<or> (buffer st ! cursor st) AND 0xC0 = 0x00
           \<and> 0 < unat ((buffer st ! cursor st) AND 0x3F)
           \<and> metPointer st1 = metPointer st \<and> numOctets st1 = numOctets st
           \<and> buffer st1 = buffer st
           \<and> cursor st1 = cursor st + 1 + unat ((buffer st ! cursor st) AND 0x3F)"
  using assms
  by (auto simp: cn_step_def readUInt8_def Let_def split: if_splits sum.splits)

text \<open>The length a finished loop hands back: \<open>numOctets\<close> after the final assignment.\<close>

definition cn_length :: "nat \<Rightarrow> cn_state \<Rightarrow> nat" where
  "cn_length offset st = (if metPointer st then numOctets st else cursor st - offset)"

lemma cn_loop_length:
  "cn_loop fullMessage offset st = Inr st' \<Longrightarrow>
     (metPointer st \<longrightarrow> cn_length offset st' = numOctets st) \<and>
     (\<not> metPointer st \<longrightarrow> offset \<le> cursor st \<longrightarrow>
        stream_end (buffer st) (cursor st) = Some (offset + cn_length offset st'))"
proof (induction fullMessage offset st rule: cn_loop.induct)
  case (1 fullMessage offset st)
  show ?case
  proof (cases "cn_step fullMessage offset st")
    case (Fail e)
    with "1.prems" show ?thesis by (subst (asm) cn_loop.simps) simp
  next
    case (Done st1)
    with "1.prems" have st': "st' = st1" by (subst (asm) cn_loop.simps) simp
    note d = cn_step_Done [OF Done]
    from d st' have "cn_length offset st' =
        (if metPointer st then numOctets st else cursor st + 1 - offset)"
      by (simp add: cn_length_def)
    moreover from d have "stream_end (buffer st) (cursor st) = Some (cursor st + 1)"
      by (subst stream_end.simps) simp
    ultimately show ?thesis by simp
  next
    case (Continue st1)
    with "1.prems" have loop1: "cn_loop fullMessage offset st1 = Inr st'"
      by (subst (asm) cn_loop.simps) simp
    note ih = "1.IH" [OF Continue loop1]
    note c = cn_step_Continue [OF Continue]
    from c(2) show ?thesis
    proof (elim disjE conjE)
      assume ptr: "(buffer st ! cursor st) AND 0xC0 = 0xC0"
        "cursor st + 1 < length (buffer st)" "metPointer st1"
        "numOctets st1 = (if metPointer st then numOctets st else cursor st + 2 - offset)"
      with ih have len: "cn_length offset st' =
          (if metPointer st then numOctets st else cursor st + 2 - offset)" by simp
      from ptr c(1) have "stream_end (buffer st) (cursor st) = Some (cursor st + 2)"
        by (subst stream_end.simps) simp
      with len show ?thesis by simp
    next
      assume lbl: "(buffer st ! cursor st) AND 0xC0 = 0x00"
        "0 < unat ((buffer st ! cursor st) AND 0x3F)"
        "metPointer st1 = metPointer st" "numOctets st1 = numOctets st"
        "buffer st1 = buffer st"
        "cursor st1 = cursor st + 1 + unat ((buffer st ! cursor st) AND 0x3F)"
      from lbl c(1) have "stream_end (buffer st) (cursor st)
          = stream_end (buffer st1) (cursor st1)"
        by (subst stream_end.simps) simp
      with ih lbl show ?thesis by simp
    qed
  qed
qed

text \<open>
  C4. For every successfully decoded name, the returned octet count, added to the
  start offset, is the position in the original stream right after the first
  compression pointer met (pointer included, two octets), or, when the name holds no
  pointer, right after its terminating zero label: the count is what the name
  occupies in the stream, not the length of the expanded name.
\<close>

theorem compileName_length:
  assumes "compileName fullMessage slc offset = Inr (segs, n)"
  shows "stream_end (case slc of Some s \<Rightarrow> s | None \<Rightarrow> fullMessage) offset = Some (offset + n)"
proof -
  from assms obtain st' where
    loop: "cn_loop fullMessage offset (cn_init fullMessage slc offset) = Inr st'"
    and n: "n = cn_length offset st'"
    by (auto simp: compileName_def cn_length_def split: if_splits sum.splits)
  from cn_loop_length [OF loop] n show ?thesis
    by (simp add: cn_init_def)
qed

theorem compileName_length_witness:
  "compileName two_names_packet None 19 = Inr ([''b'', ''a''], 4)
   \<and> stream_end two_names_packet 19 = Some (19 + 4)"
proof -
  have h: "compileName two_names_packet None 19 = Inr ([''b'', ''a''], 4)"
    by code_simp
  from compileName_length [OF h] have "stream_end two_names_packet 19 = Some (19 + 4)"
    by simp
  with h show ?thesis by simp
qed

section \<open>Properties of the registry\<close>

lemma foldl_transpose:
  "foldl (\<lambda>result (key, val). case val of Some v \<Rightarrow> result(v \<mapsto> key) | None \<Rightarrow> result) acc m
   = acc ++ map_of (rev (label_pairs m))"
proof (induction m arbitrary: acc)
  case Nil
  show ?case by (simp add: label_pairs_def map_filter_simps)
next
  case (Cons p m)
  obtain k lo where p: "p = (k, lo)" by (cases p)
  show ?case
  proof (cases lo)
    case None
    with p Cons show ?thesis by (simp add: label_pairs_def map_filter_simps)
  next
    case (Some l)
    with p Cons show ?thesis
      by (simp add: label_pairs_def map_filter_simps map_add_def fun_eq_iff split: option.splits)
  qed
qed

lemma transpose_labels_eq: "transpose_labels m = map_of (rev (label_pairs m))"
  by (simp add: transpose_labels_def foldl_transpose)

lemma type_labels_distinct: "distinct (map fst (label_pairs TYPE_LABELS))"
  by (simp add: label_pairs_def map_filter_simps TYPE_LABELS_def)

lemma label_pairs_member: "(v, Some l) \<in> set m \<Longrightarrow> (l, v) \<in> set (label_pairs m)"
  by (induction m) (auto simp: label_pairs_def split: option.splits)

lemma type_number_of_label:
  assumes "map_of TYPE_LABELS v = Some (Some l)"
  shows "TYPE_NUMBERS l = Some v"
proof -
  from assms have "(v, Some l) \<in> set TYPE_LABELS" by (rule map_of_SomeD)
  then have "(l, v) \<in> set (rev (label_pairs TYPE_LABELS))"
    by (simp add: label_pairs_member)
  moreover have "distinct (map fst (rev (label_pairs TYPE_LABELS)))"
    using type_labels_distinct by (simp add: rev_map [symmetric])
  ultimately show ?thesis
    by (simp add: TYPE_NUMBERS_def transpose_labels_eq)
qed

lemma class_number_of_label:
  assumes "map_of CLASS_LABELS v = Some (Some l)" and "1 \<le> v"
  shows "CLASS_NUMBERS l = Some v"
proof -
  from assms(1) have "(v, Some l) \<in> set CLASS_LABELS" by (rule map_of_SomeD)
  with assms(2) have "v = 1 \<and> l = ''IN'' \<or> v = 3 \<and> l = ''CH'' \<or> v = 4 \<and> l = ''HS''
      \<or> v = 254 \<and> l = ''NONE'' \<or> v = 255 \<and> l = ''*'' \<or> v = 65535 \<and> l = ''reserved''"
    by (auto simp: CLASS_LABELS_def)
  then show ?thesis
    by (elim disjE conjE)
       (simp_all add: CLASS_NUMBERS_def transpose_labels_def CLASS_LABELS_def)
qed

text \<open>
  C10. For every type code and every class code \<open>v\<close> between 1 and 65535 to which the
  registry's table gives a label string (not \<open>null\<close>, not the computed "Private use"),
  the code's label is that string and the label's code is \<open>v\<close> again.
\<close>

theorem registry_roundtrip:
  assumes "1 \<le> v" and "v \<le> 65535"
  shows "(map_of TYPE_LABELS v = Some (Some l) \<longrightarrow>
            typeToLabel (Some v) = Inr (Some l) \<and> typeToNumber (Some l) = Inr (Number v))
       \<and> (map_of CLASS_LABELS v = Some (Some l) \<longrightarrow>
            classToLabel (Some v) = Inr (Some l) \<and> classToNumber (Some l) = Inr (Number v))"
proof (intro conjI impI)
  assume t: "map_of TYPE_LABELS v = Some (Some l)"
  with assms show "typeToLabel (Some v) = Inr (Some l)"
    by (simp add: typeToLabel_def label_of_def)
  from type_number_of_label [OF t] assms show "typeToNumber (Some l) = Inr (Number v)"
    by (simp add: typeToNumber_def number_of_def)
next
  assume c: "map_of CLASS_LABELS v = Some (Some l)"
  with assms show "classToLabel (Some v) = Inr (Some l)"
    by (simp add: classToLabel_def label_of_def)
  from class_number_of_label [OF c assms(1)] assms
  show "classToNumber (Some l) = Inr (Number v)"
    by (simp add: classToNumber_def number_of_def)
qed

theorem registry_roundtrip_witness:
  "(1::nat) \<le> 65535 \<and> (65535::nat) \<le> 65535
   \<and> classToLabel (Some 65535) = Inr (Some ''reserved'')
   \<and> classToNumber (Some ''reserved'') = Inr (Number 65535)"
proof -
  have c: "map_of CLASS_LABELS 65535 = Some (Some ''reserved'')"
    by (simp add: CLASS_LABELS_def)
  have a: "(1::nat) \<le> 65535" and b: "(65535::nat) \<le> 65535" by simp_all
  from registry_roundtrip [OF a b, of "''reserved''"] c a b show ?thesis by blast
qed

section \<open>Names and their labels\<close>

lemma line_terminator_is_space: "is_line_terminator c \<Longrightarrow> is_space c"
  by (auto simp: is_line_terminator_def is_space_def)

lemma dot_not_label_char: "\<not> label_char CHR ''.''"
  by (simp add: label_char_def)

lemma dot_not_line_terminator: "\<not> is_line_terminator CHR ''.''"
  by (simp add: is_line_terminator_def)

lemma split_label_prefix:
  assumes "valid_label l" and "name_tail t"
  shows "split_label (l @ CHR ''.'' # t) = Some (l, t)"
proof -
  from assms(1) have all: "\<forall>x \<in> set l. label_char x" and ne: "l \<noteq> []" and len: "length l \<le> 63"
    by (simp_all add: valid_label_def list_all_iff)
  have tw: "takeWhile label_char (l @ CHR ''.'' # t) = l"
    using all by (simp add: takeWhile_append2 dot_not_label_char)
  have dw: "dropWhile label_char (l @ CHR ''.'' # t) = CHR ''.'' # t"
    using all by (simp add: dropWhile_append2 dot_not_label_char)
  from assms(2) ne len show ?thesis
    by (simp add: split_label_def tw dw name_tail_def)
qed


lemma split_label_bad_tail:
  assumes "valid_label l" and "\<not> name_tail t"
  shows "split_label (l @ CHR ''.'' # t) = None"
proof -
  from assms(1) have all: "\<forall>x \<in> set l. label_char x" and ne: "l \<noteq> []" and len: "length l \<le> 63"
    by (simp_all add: valid_label_def list_all_iff)
  have tw: "takeWhile label_char (l @ CHR ''.'' # t) = l"
    using all by (simp add: takeWhile_append2 dot_not_label_char)
  have dw: "dropWhile label_char (l @ CHR ''.'' # t) = CHR ''.'' # t"
    using all by (simp add: dropWhile_append2 dot_not_label_char)
  from assms(2) ne len show ?thesis
    by (simp add: split_label_def tw dw name_tail_def)
qed

lemma valid_label_tail: "valid_label l \<Longrightarrow> name_tail l"
  by (cases l) (auto simp: valid_label_def name_tail_def label_char_def list_all_iff
      dest: line_terminator_is_space)

lemma name_tail_prepend:
  "list_all valid_label pre \<Longrightarrow> name_tail suf \<Longrightarrow> name_tail (prepend_labels pre suf)"
proof (induction pre)
  case Nil
  then show ?case by simp
next
  case (Cons l pre)
  then have l: "valid_label l" and t: "name_tail (prepend_labels pre suf)" by simp_all
  from l obtain c cs where lc: "l = c # cs" by (cases l) (auto simp: valid_label_def)
  from valid_label_tail [OF l] t show ?case
    by (simp add: name_tail_def lc dot_not_line_terminator)
qed

lemma length_prepend_labels: "length suf \<le> length (prepend_labels pre suf)"
  by (induction pre) simp_all

lemma longer_suffixes_longer:
  "d \<in> set (longer_suffixes pre suf) \<Longrightarrow> length suf < length d"
proof (induction pre)
  case Nil
  then show ?case by simp
next
  case (Cons l pre)
  have "length suf \<le> length (prepend_labels pre suf)" by (rule length_prepend_labels)
  with Cons show ?case by auto
qed

lemma longer_suffixes_shorter:
  "d \<in> set (longer_suffixes pre suf) \<Longrightarrow> length d \<le> length (prepend_labels pre suf)"
proof (induction pre)
  case Nil
  then show ?case by simp
next
  case (Cons l pre)
  then show ?case by auto
qed

lemmas label_eval = valid_label_def name_tail_def label_char_def is_space_def
  is_line_terminator_def zones_get_def object_prototype_keys_def

section \<open>Properties of encodeName\<close>

lemma pointer_usable_domains_set:
  "d \<noteq> domain \<Longrightarrow> pointer_usable (domains_set domains domain position) compress d
                   = pointer_usable domains compress d"
  by (simp add: pointer_usable_def domains_set_def)

lemma encodeName_loop_compress:
  assumes "list_all valid_label pre" and "name_tail suf"
    and "domains suf = Some p" and "0 < p" and "p \<le> 0x3FFF"
    and "list_all (\<lambda>d. pointer_usable domains True d = None) (longer_suffixes pre suf)"
  shows "\<exists>domains'. encodeName_loop domains True (prepend_labels pre suf) position out
           = Inr (out @ concat (map label_chunk pre) @ pointer_chunk p, domains')
         \<and> domains' suf = Some p"
  using assms
proof (induction pre arbitrary: domains position out)
  case Nil
  then have "pointer_usable domains True suf = Some p"
    by (simp add: pointer_usable_def)
  moreover from Nil have "suf \<noteq> []" by (simp add: name_tail_def)
  ultimately show ?case
    using Nil by (subst encodeName_loop.simps) simp
next
  case (Cons l pre)
  let ?domain = "prepend_labels (l # pre) suf"
  let ?rest = "prepend_labels pre suf"
  let ?domains1 = "domains_set domains ?domain position"
  from Cons.prems have l: "valid_label l" and pre: "list_all valid_label pre" by simp_all
  have tail: "name_tail ?rest" using pre Cons.prems(2) by (rule name_tail_prepend)
  have split: "split_label ?domain = Some (l, ?rest)"
    using split_label_prefix [OF l tail] by simp
  from Cons.prems have unusable: "pointer_usable domains True ?domain = None" by simp
  have shorter: "length ?rest < length ?domain" by simp
  have suf_ne: "suf \<noteq> ?domain"
    using length_prepend_labels [of suf pre] by (auto dest: arg_cong [where f = length])
  have d1: "?domains1 suf = Some p"
    using suf_ne Cons.prems(3) by (simp add: domains_set_def)
  have rest1: "list_all (\<lambda>d. pointer_usable ?domains1 True d = None) (longer_suffixes pre suf)"
  proof -
    have "pointer_usable ?domains1 True d = pointer_usable domains True d"
      if "d \<in> set (longer_suffixes pre suf)" for d
    proof -
      from longer_suffixes_shorter [OF that] shorter have "d \<noteq> ?domain" by auto
      then show ?thesis by (rule pointer_usable_domains_set)
    qed
    with Cons.prems(6) show ?thesis by (simp add: list_all_iff)
  qed
  from Cons.IH [OF pre Cons.prems(2) d1 Cons.prems(4) Cons.prems(5) rest1,
      of "position + (length l + 1)" "out @ label_chunk l"]
  obtain domains' where
    "encodeName_loop ?domains1 True ?rest (position + (length l + 1)) (out @ label_chunk l)
       = Inr ((out @ label_chunk l) @ concat (map label_chunk pre) @ pointer_chunk p, domains')"
    and "domains' suf = Some p"
    by blast
  then show ?case
    using unusable split by (subst encodeName_loop.simps) simp
qed

lemma encodeName_loop_refused_step:
  assumes "name \<noteq> []" and "pointer_usable domains compress name = None"
    and "split_label name = None"
  shows "encodeName_loop domains compress name position out = Inl InvalidName"
  using assms by (subst encodeName_loop.simps) simp

lemma unusable_after_set:
  assumes "list_all (\<lambda>d. pointer_usable domains True d = None) (longer_suffixes pre suf)"
  shows "list_all (\<lambda>d. pointer_usable (domains_set domains (prepend_labels (l # pre) suf) position)
                        True d = None) (longer_suffixes pre suf)"
proof -
  let ?domain = "prepend_labels (l # pre) suf"
  have "pointer_usable (domains_set domains ?domain position) True d = pointer_usable domains True d"
    if "d \<in> set (longer_suffixes pre suf)" for d
  proof -
    have "length (prepend_labels pre suf) < length ?domain" by simp
    with longer_suffixes_shorter [OF that] have "d \<noteq> ?domain" by auto
    then show ?thesis by (rule pointer_usable_domains_set)
  qed
  with assms show ?thesis by (simp add: list_all_iff)
qed

lemma encodeName_loop_refused_tail:
  assumes "list_all valid_label pre" and "pre \<noteq> []" and "\<not> name_tail bad"
    and "list_all (\<lambda>d. pointer_usable domains True d = None) (longer_suffixes pre bad)"
  shows "encodeName_loop domains True (prepend_labels pre bad) position out = Inl InvalidName"
  using assms
proof (induction pre arbitrary: domains position out)
  case Nil
  then show ?case by simp
next
  case (Cons l pre)
  then have l: "valid_label l" and pre: "list_all valid_label pre" by simp_all
  let ?domain = "prepend_labels (l # pre) bad"
  from Cons.prems have unusable: "pointer_usable domains True ?domain = None"
    and rest: "list_all (\<lambda>d. pointer_usable domains True d = None) (longer_suffixes pre bad)"
    by simp_all
  have ne: "?domain \<noteq> []" by simp
  show ?case
  proof (cases "name_tail (prepend_labels pre bad)")
    case True
    with Cons.prems(3) have "pre \<noteq> []" by (cases pre) auto
    from Cons.IH [OF pre this Cons.prems(3) unusable_after_set [OF rest]]
    have "encodeName_loop (domains_set domains ?domain position) True (prepend_labels pre bad)
            (position + (length l + 1)) (out @ label_chunk l) = Inl InvalidName" .
    moreover have "split_label ?domain = Some (l, prepend_labels pre bad)"
      using split_label_prefix [OF l True] by simp
    ultimately show ?thesis
      using unusable by (subst encodeName_loop.simps) simp
  next
    case False
    have "split_label ?domain = None"
      using split_label_bad_tail [OF l False] by simp
    with ne unusable show ?thesis by (rule encodeName_loop_refused_step)
  qed
qed

lemma encodeName_loop_refused:
  assumes "list_all valid_label pre"
    and "list_all (\<lambda>d. pointer_usable domains True d = None) (longer_suffixes pre bad)"
    and "bad \<noteq> []" and "pointer_usable domains True bad = None" and "split_label bad = None"
  shows "encodeName_loop domains True (prepend_labels pre bad) position out = Inl InvalidName"
proof (cases "name_tail bad")
  case False
  show ?thesis
  proof (cases "pre = []")
    case True
    with assms(3-5) show ?thesis by (simp add: encodeName_loop_refused_step)
  next
    case ne: False
    from assms(1) ne False assms(2) show ?thesis by (rule encodeName_loop_refused_tail)
  qed
next
  case True
  from assms(1) assms(2) assms(4) show ?thesis
  proof (induction pre arbitrary: domains position out)
    case Nil
    with assms(3) assms(5) show ?case by (simp add: encodeName_loop_refused_step)
  next
    case (Cons l pre)
    then have l: "valid_label l" and pre: "list_all valid_label pre" by simp_all
    let ?domain = "prepend_labels (l # pre) bad"
    have tail: "name_tail (prepend_labels pre bad)"
      using pre True by (rule name_tail_prepend)
    have split: "split_label ?domain = Some (l, prepend_labels pre bad)"
      using split_label_prefix [OF l tail] by simp
    from Cons.prems have unusable: "pointer_usable domains True ?domain = None"
      and rest: "list_all (\<lambda>d. pointer_usable domains True d = None) (longer_suffixes pre bad)"
      by simp_all
    have "bad \<noteq> ?domain"
      using length_prepend_labels [of bad pre] by (auto dest: arg_cong [where f = length])
    then have "pointer_usable (domains_set domains ?domain position) True bad = None"
      using Cons.prems(3) by (simp add: pointer_usable_domains_set)
    from Cons.IH [OF pre unusable_after_set [OF rest] this] unusable split show ?case
      by (subst encodeName_loop.simps) simp
  qed
qed

text \<open>
  C3, as amended. With compression enabled, let the name (its final dot removed) be the
  valid labels \<open>pre\<close>, each followed by a dot, and then \<open>suf\<close>, where no suffix of the
  name longer than \<open>suf\<close> is recorded in the dictionary at an offset between 1 and 0x3FFF.
  If \<open>suf\<close> is recorded at such an offset, starts with a character that is neither a dot
  nor whitespace and holds no line terminator, the encoder emits the labels \<open>pre\<close>
  literally, followed by the two octets of a pointer to the recorded offset of \<open>suf\<close>.
  The name is refused as malformed if \<open>suf\<close> is not empty, not recorded at such an offset
  and not accepted by the regular expression; and if there is a label before \<open>suf\<close>
  and \<open>suf\<close> is empty, starts with a dot or whitespace or holds a line terminator
  (recorded or not).
\<close>

theorem encodeName_compress:
  assumes "strip_final_dot name = prepend_labels pre suf"
    and "list_all valid_label pre"
    and "list_all (\<lambda>d. pointer_usable (e_domains enc) True d = None) (longer_suffixes pre suf)"
  shows "(name_tail suf \<and> e_domains enc suf = Some p \<and> 0 < p \<and> p \<le> 0x3FFF
            \<longrightarrow> (\<exists>enc'. encodeName enc (Some name) shift True
                   = Inr (concat (map label_chunk pre) @ pointer_chunk p, enc')))
       \<and> (suf \<noteq> [] \<and> pointer_usable (e_domains enc) True suf = None \<and> split_label suf = None
            \<longrightarrow> encodeName enc (Some name) shift True = Inl InvalidName)
       \<and> (pre \<noteq> [] \<and> \<not> name_tail suf
            \<longrightarrow> encodeName enc (Some name) shift True = Inl InvalidName)"
proof (intro conjI impI)
  assume a: "name_tail suf \<and> e_domains enc suf = Some p \<and> 0 < p \<and> p \<le> 0x3FFF"
  then have "name_tail suf" "e_domains enc suf = Some p" "0 < p" "p \<le> 0x3FFF" by simp_all
  from encodeName_loop_compress [OF assms(2) this assms(3), of "e_position enc + shift" "[]"]
  obtain domains' where
    "encodeName_loop (e_domains enc) True (prepend_labels pre suf) (e_position enc + shift) []
       = Inr (concat (map label_chunk pre) @ pointer_chunk p, domains')"
    by auto
  then show "\<exists>enc'. encodeName enc (Some name) shift True
               = Inr (concat (map label_chunk pre) @ pointer_chunk p, enc')"
    by (simp add: encodeName_def assms(1) then_do_def)
next
  assume "suf \<noteq> [] \<and> pointer_usable (e_domains enc) True suf = None \<and> split_label suf = None"
  with assms(2) assms(3)
  have "encodeName_loop (e_domains enc) True (prepend_labels pre suf) (e_position enc + shift) []
          = Inl InvalidName"
    by (simp add: encodeName_loop_refused)
  then show "encodeName enc (Some name) shift True = Inl InvalidName"
    by (simp add: encodeName_def assms(1) then_do_def)
next
  assume "pre \<noteq> [] \<and> \<not> name_tail suf"
  with assms(2) assms(3)
  have "encodeName_loop (e_domains enc) True (prepend_labels pre suf) (e_position enc + shift) []
          = Inl InvalidName"
    by (simp add: encodeName_loop_refused_tail)
  then show "encodeName enc (Some name) shift True = Inl InvalidName"
    by (simp add: encodeName_def assms(1) then_do_def)
qed


section \<open>Evaluation of the encoder on examples\<close>

lemma label_numbers:
  "typeToNumber (Some ''A'') = Inr (Number 1)"
  "typeToNumber (Some ''NS'') = Inr (Number 2)"
  "typeToNumber (Some ''SOA'') = Inr (Number 6)"
  "typeToNumber (Some ''HINFO'') = Inr (Number 13)"
  "typeToNumber (Some ''TXT'') = Inr (Number 16)"
  "classToNumber (Some ''IN'') = Inr (Number 1)"
proof -
  have t: "map_of TYPE_LABELS 1 = Some (Some ''A'')" "map_of TYPE_LABELS 2 = Some (Some ''NS'')"
    "map_of TYPE_LABELS 6 = Some (Some ''SOA'')" "map_of TYPE_LABELS 13 = Some (Some ''HINFO'')"
    "map_of TYPE_LABELS 16 = Some (Some ''TXT'')"
    by (simp_all add: TYPE_LABELS_def)
  have c: "map_of CLASS_LABELS 1 = Some (Some ''IN'')"
    by (simp add: CLASS_LABELS_def)
  show "typeToNumber (Some ''A'') = Inr (Number 1)"
    "typeToNumber (Some ''NS'') = Inr (Number 2)"
    "typeToNumber (Some ''SOA'') = Inr (Number 6)"
    "typeToNumber (Some ''HINFO'') = Inr (Number 13)"
    "typeToNumber (Some ''TXT'') = Inr (Number 16)"
    using t [THEN type_number_of_label] by (simp_all add: typeToNumber_def number_of_def)
  show "classToNumber (Some ''IN'') = Inr (Number 1)"
    using class_number_of_label [OF c] by (simp add: classToNumber_def number_of_def)
qed

lemmas write_eval = write_looked_up_def buf16_def buf32_def writeUInt16BE_def writeUInt32BE_def

lemmas name_eval = encodeName_def encodeName_loop.simps strip_final_dot_def split_label_def
  label_char_def is_space_def is_line_terminator_def pointer_usable_def domains_set_def
  label_chunk_def pointer_chunk_def then_do_def Let_def

lemmas record_eval = Encoder_record_def Encoder_ednsRecord_def encode_rdata_def kind_def
  advance_def push_record_def label_numbers match_ipv4_def number_of_digits_def to_double_def is_digit_def
  shl24_def

lemmas message_eval = encode_def toBinary_def Encoder_message_def DNSMessage_of_object_def
  section_of_def SECTIONS_def opcode_index_def opcodeNames_def flag_bit_def new_Encoder_def

lemma encode_txt_query_instance: "encode (Instance txt_query) = Inr txt_query_octets"
  by (simp add: message_eval record_eval name_eval write_eval txt_query_def txt_query_octets_def)

text \<open>
  C2. \<open>encode\<close> applied to the object of the claim does not produce the 29 octets: the
  constructor of \<open>DNSMessage\<close> empties every section of the object it is given, so the
  question is lost and the result is the header alone, with a question count of 0. (For
  a message that holds the question, the encoder produces the 29 octets:
  \<open>encode_txt_query_instance\<close>.)
\<close>

theorem encode_txt_query_object:
  "encode (PlainObject txt_query) = Inr [0x00, 0x7B, 0x01, 0x00, 0, 0, 0, 0, 0, 0, 0, 0]"
  by (simp add: message_eval write_eval then_do_def txt_query_def)

lemma after_answer_reached:
  "Encoder_record (new_Encoder\<lparr>e_position := 12\<rparr>) Answer answer_record = Inr after_answer"
  by (simp add: record_eval name_eval write_eval new_Encoder_def answer_record_def after_answer_def)

lemma compressed_response_octets:
  "encode (Instance compressed_response) =
     Inr [0, 1, 0x84, 0, 0, 0, 0, 1, 0, 1, 0, 0,
          7, 0x65, 0x78, 0x61, 0x6D, 0x70, 0x6C, 0x65, 3, 0x63, 0x6F, 0x6D, 0,
          0, 1, 0, 1, 0, 0, 0, 60, 0, 4, 1, 2, 3, 4,
          0xC0, 0x0C, 0, 2, 0, 1, 0, 0, 0, 60, 0, 5, 2, 0x6E, 0x73, 0xC0, 0x0C]"
  by (simp add: message_eval record_eval name_eval write_eval compressed_response_def
      answer_record_def authority_record_def)

theorem encodeName_compress_witness:
  "Encoder_record (new_Encoder\<lparr>e_position := 12\<rparr>) Answer answer_record = Inr after_answer
   \<and> e_domains after_answer ''example.com'' = Some 12
   \<and> (\<exists>enc'. encodeName after_answer (Some ''example.com'') 0 True = Inr ([0xC0, 0x0C], enc'))
   \<and> (\<exists>enc'. encodeName after_answer (Some ''ns.example.com'') 2 True
                = Inr ([2, 0x6E, 0x73, 0xC0, 0x0C], enc'))
   \<and> encodeName after_answer (Some ''ns.a b.example.com'') 2 True = Inl InvalidName
   \<and> e_domains line_feed_encoder line_feed_name = Some 12
   \<and> encodeName line_feed_encoder (Some (''a.'' @ line_feed_name)) 0 True = Inl InvalidName"
proof -
  have d: "e_domains after_answer ''example.com'' = Some 12"
    by (simp add: after_answer_def)
  have tail: "name_tail ''example.com''"
    by (simp add: label_eval)
  have p: "(0::nat) < 12" "(12::nat) \<le> 0x3FFF" by simp_all
  have owner: "\<exists>enc'. encodeName after_answer (Some ''example.com'') 0 True
                 = Inr (concat (map label_chunk []) @ pointer_chunk 12, enc')"
  proof -
    have s: "strip_final_dot ''example.com'' = prepend_labels [] ''example.com''"
      by (simp add: strip_final_dot_def)
    have v: "list_all valid_label []" by simp
    have m: "list_all (\<lambda>d. pointer_usable (e_domains after_answer) True d = None)
               (longer_suffixes [] ''example.com'')"
      by simp
    from encodeName_compress [OF s v m, of 12 0] tail d p show ?thesis by blast
  qed
  have ns: "\<exists>enc'. encodeName after_answer (Some ''ns.example.com'') 2 True
              = Inr (concat (map label_chunk [''ns'']) @ pointer_chunk 12, enc')"
  proof -
    have s: "strip_final_dot ''ns.example.com'' = prepend_labels [''ns''] ''example.com''"
      by (simp add: strip_final_dot_def)
    have v: "list_all valid_label [''ns'']" by (simp add: label_eval)
    have m: "list_all (\<lambda>d. pointer_usable (e_domains after_answer) True d = None)
               (longer_suffixes [''ns''] ''example.com'')"
      by (simp add: pointer_usable_def after_answer_def)
    from encodeName_compress [OF s v m, of 12 2] tail d p show ?thesis by blast
  qed
  have bad: "encodeName after_answer (Some ''ns.a b.example.com'') 2 True = Inl InvalidName"
  proof -
    have s: "strip_final_dot ''ns.a b.example.com'' = prepend_labels [''ns''] ''a b.example.com''"
      by (simp add: strip_final_dot_def)
    have v: "list_all valid_label [''ns'']" by (simp add: label_eval)
    have m: "list_all (\<lambda>d. pointer_usable (e_domains after_answer) True d = None)
               (longer_suffixes [''ns''] ''a b.example.com'')"
      by (simp add: pointer_usable_def after_answer_def)
    have l: "''a b.example.com'' \<noteq> []
             \<and> pointer_usable (e_domains after_answer) True ''a b.example.com'' = None
             \<and> split_label ''a b.example.com'' = None"
      by (simp add: pointer_usable_def after_answer_def split_label_def label_char_def
          is_space_def Let_def)
    from encodeName_compress [OF s v m, of 0 2] l show ?thesis by blast
  qed
  have dl: "e_domains line_feed_encoder line_feed_name = Some 12"
    by (simp add: line_feed_encoder_def)
  have lf: "encodeName line_feed_encoder (Some (''a.'' @ line_feed_name)) 0 True = Inl InvalidName"
  proof -
    have s: "strip_final_dot (''a.'' @ line_feed_name) = prepend_labels [''a''] line_feed_name"
      by (simp add: strip_final_dot_def line_feed_name_def)
    have v: "list_all valid_label [''a'']" by (simp add: label_eval)
    have m: "list_all (\<lambda>d. pointer_usable (e_domains line_feed_encoder) True d = None)
               (longer_suffixes [''a''] line_feed_name)"
      by (simp add: pointer_usable_def line_feed_encoder_def line_feed_name_def)
    have l: "[''a''] \<noteq> [] \<and> \<not> name_tail line_feed_name"
      by (simp add: label_eval line_feed_name_def)
    from encodeName_compress [OF s v m, of 0 0] l show ?thesis by blast
  qed
  from owner ns after_answer_reached d bad dl lf show ?thesis
    by (simp add: label_chunk_def pointer_chunk_def)
qed

text \<open>
  A fresh encoder (position 0) records \<open>example.com\<close> at offset 0 when it writes the name.
  When it writes the name again, the suffix \<open>example.com\<close> recorded at offset 0 is not
  used: the label \<open>example\<close> is emitted literally, followed by a pointer to \<open>com\<close>.
  And with \<open>example.com\<close> recorded at offset 12, writing \<open>a b.example.com\<close> emits no
  pointer to it: the first label holds a space, and the name is refused.
\<close>

theorem encodeName_compress_counterexample:
  "then_do (encodeName new_Encoder (Some ''example.com'') 0 True) (\<lambda>(first, enc1).
   then_do (encodeName enc1 (Some ''example.com'') 0 True) (\<lambda>(second, enc2).
     Inr (e_domains enc1 ''example.com'', first, second)))
   = Inr (Some 0,
          [7, 0x65, 0x78, 0x61, 0x6D, 0x70, 0x6C, 0x65, 3, 0x63, 0x6F, 0x6D, 0],
          [7, 0x65, 0x78, 0x61, 0x6D, 0x70, 0x6C, 0x65, 0xC0, 0x08])
   \<and> then_do (encodeName (new_Encoder\<lparr>e_position := 12\<rparr>) (Some ''example.com'') 0 True)
       (\<lambda>(first, enc1).
          Inr (e_domains enc1 ''example.com'', encodeName enc1 (Some ''a b.example.com'') 0 True))
     = Inr (Some 12, Inl InvalidName)"
  by (simp add: name_eval new_Encoder_def)


section \<open>Properties of findZoneForName\<close>










section \<open>Records of an unsupported kind\<close>

lemmas read_eval = readUInt8_def readUInt16BE_def readUInt32BE_def slice_def then_do_def

lemmas cn_eval = compileName_def uncompress_def cn_init_def cn_loop.simps cn_step_def
  toString_ascii_def Let_def char_of_eq_iff

lemmas table_eval = typeToLabel_def classToLabel_def label_of_def TYPE_LABELS_def CLASS_LABELS_def

lemma decode_records_numeral:
  "decode_records msg q (numeral k) p = decode_records msg q (Suc (pred_numeral k)) p"
  by (simp add: numeral_eq_Suc)

lemmas decode_eval = decode_def DNSMessage_parse_def sections_def SECTIONS_def recordCount_def
  decode_record_def decode_records_numeral DNSRecord_parse_def parse_data_def kind_def
  opcodeNames_def records_of_def sar32_def

lemma parse_data_unsupported:
  "k \<notin> set supported_kinds \<Longrightarrow> parse_data body k d = Inl UnknownRecord"
  by (simp add: parse_data_def supported_kinds_def)

lemma encode_rdata_unsupported:
  "k \<notin> set supported_kinds \<Longrightarrow> encode_rdata enc k d = Inl UnsupportedType"
  by (simp add: encode_rdata_def supported_kinds_def)

lemma DNSRecord_parse_unsupported:
  assumes "s \<noteq> Question" and "raw_unsupported r"
  shows "DNSRecord_parse body s r \<in> {Inl UnknownRecord, Inl UnknownType, Inl UnknownClass,
                                       Inl InvalidRecordType, Inl InvalidRecordClass}"
proof (cases "classToLabel (raw_class r)")
  case (Inl e)
  then have "e = InvalidRecordClass"
    by (auto simp: classToLabel_def split: option.splits if_splits)
  with Inl show ?thesis by (simp add: DNSRecord_parse_def then_do_def)
next
  case c: (Inr cls)
  show ?thesis
  proof (cases "typeToLabel (Some (raw_type r))")
    case (Inl e)
    then have "e = InvalidRecordType"
      by (auto simp: typeToLabel_def split: if_splits)
    with Inl c show ?thesis by (simp add: DNSRecord_parse_def then_do_def)
  next
    case t: (Inr tlabel)
    show ?thesis
    proof (cases cls)
      case None
      with c t show ?thesis by (simp add: DNSRecord_parse_def then_do_def)
    next
      case cl: (Some cl)
      show ?thesis
      proof (cases tlabel)
        case None
        with c t cl show ?thesis by (simp add: DNSRecord_parse_def then_do_def)
      next
        case (Some ty)
        with c t cl assms(2) have "kind cl ty \<notin> set supported_kinds"
          by (simp add: raw_unsupported_def)
        then have "parse_data body (kind cl ty) (raw_data r) = Inl UnknownRecord"
          by (rule parse_data_unsupported)
        with c t cl Some assms(1) show ?thesis
          by (simp add: DNSRecord_parse_def then_do_def)
      qed
    qed
  qed
qed

lemma parse_records_fail:
  "r \<in> set rs \<Longrightarrow> DNSRecord_parse body s r = Inl e \<Longrightarrow> \<exists>e'. parse_records body s rs = Inl e'"
  by (induction rs) (auto split: sum.splits)

lemma parse_sections_fail:
  "(s, rs) \<in> set secs \<Longrightarrow> parse_records body s rs = Inl e
   \<Longrightarrow> \<exists>e'. parse_sections body secs = Inl e'"
  by (induction secs) (auto split: sum.splits)

lemma decode_unsupported:
  assumes "sections buf = Inr secs" and "(s, rs) \<in> set secs" and "s \<noteq> Question"
    and "r \<in> set rs" and "raw_unsupported r"
  shows "\<exists>e. decode buf = Inl e"
proof -
  from DNSRecord_parse_unsupported [OF assms(3) assms(5), of buf]
  obtain e where "DNSRecord_parse buf s r = Inl e" by auto
  from parse_records_fail [OF assms(4) this]
  obtain e' where "parse_records buf s rs = Inl e'" by auto
  from parse_sections_fail [OF assms(2) this]
  obtain e'' where "parse_sections buf secs = Inl e''" by auto
  with assms(1) show ?thesis
    by (auto simp: decode_def DNSMessage_parse_def then_do_def split: sum.splits)
qed

lemma Encoder_record_unsupported:
  assumes "s \<noteq> Question" and "record_unsupported rec"
  shows "\<exists>e. Encoder_record enc s rec = Inl e"
proof (cases "r_class rec")
  case None
  then have "classToNumber (r_class rec) = Inl MustBeString"
    by (simp add: classToNumber_def number_of_def)
  then show ?thesis
    by (auto simp: Encoder_record_def then_do_def Let_def split: sum.splits prod.splits)
next
  case c: (Some c)
  show ?thesis
  proof (cases "r_type rec")
    case None
    then have "typeToNumber (r_type rec) = Inl MustBeString"
      by (simp add: typeToNumber_def number_of_def)
    then show ?thesis
      by (auto simp: Encoder_record_def then_do_def Let_def split: sum.splits prod.splits)
  next
    case (Some t)
    with c assms(2) have "kind c t \<notin> set supported_kinds"
      by (simp add: record_unsupported_def)
    then have "\<And>e d. encode_rdata e (kind c t) d = Inl UnsupportedType"
      by (rule encode_rdata_unsupported)
    with c Some assms(1) show ?thesis
      by (auto simp: Encoder_record_def then_do_def Let_def split: sum.splits prod.splits)
  qed
qed

lemma encode_records_fail:
  assumes "rec \<in> set rs" and "r_edns rec = None" and "\<And>enc. \<exists>e. Encoder_record enc s rec = Inl e"
  shows "\<exists>e. encode_records enc s rs = Inl e"
  using assms(1)
proof (induction rs arbitrary: enc)
  case Nil
  then show ?case by simp
next
  case (Cons r rs)
  show ?case
  proof (cases "r = rec")
    case True
    with assms(2) assms(3) [of enc] show ?thesis by auto
  next
    case False
    with Cons show ?thesis by (auto split: sum.splits option.splits)
  qed
qed

lemma encode_sections_fail:
  assumes "s \<in> set ss" and "\<And>enc. \<exists>e. encode_records enc s (section_of msg s) = Inl e"
  shows "\<exists>e. encode_sections enc msg ss = Inl e"
  using assms(1)
proof (induction ss arbitrary: enc)
  case Nil
  then show ?case by simp
next
  case (Cons x ss)
  show ?case
  proof (cases "x = s")
    case True
    with assms(2) [of enc] show ?thesis by auto
  next
    case False
    with Cons show ?thesis by (auto split: sum.splits)
  qed
qed

lemma all_sections: "s \<in> set SECTIONS"
  by (cases s) (simp_all add: SECTIONS_def)

lemma encode_fails:
  assumes "rec \<in> set (section_of msg s)" and "r_edns rec = None"
    and "\<And>enc. \<exists>e. Encoder_record enc s rec = Inl e"
  shows "\<exists>e. encode (Instance msg) = Inl e"
proof -
  have "\<exists>e. encode_records enc s (section_of msg s) = Inl e" for enc
    using assms by (rule encode_records_fail)
  then have "\<exists>e. encode_sections enc msg SECTIONS = Inl e" for enc
    using all_sections by (rule encode_sections_fail [rotated])
  then obtain e where "encode_sections (new_Encoder\<lparr>e_position := 12\<rparr>) msg SECTIONS = Inl e"
    by blast
  then show ?thesis
    by (auto simp: encode_def toBinary_def Encoder_message_def then_do_def Let_def
        split: sum.splits option.splits)
qed

lemma table_numbers_bounded:
  "list_all (\<lambda>(l, n). n \<le> 65535) (label_pairs TYPE_LABELS)"
  "list_all (\<lambda>(l, n). n \<le> 65535) (label_pairs CLASS_LABELS)"
  by (simp_all add: label_pairs_def TYPE_LABELS_def CLASS_LABELS_def)

lemma number_of_written:
  assumes "number_of (transpose_labels table) missing label = Inr v"
    and "list_all (\<lambda>(l, n). n \<le> 65535) (label_pairs table)"
  shows "\<exists>b. write_looked_up v = Inr b"
proof (cases v)
  case Inherited
  then show ?thesis by (simp add: write_looked_up_def buf16_def writeUInt16BE_def)
next
  case (Number n)
  with assms(1) obtain l where "transpose_labels table l = Some n"
    by (auto simp: number_of_def split: option.splits if_splits)
  then have "(l, n) \<in> set (label_pairs table)"
    by (auto simp: transpose_labels_eq dest: map_of_SomeD)
  with assms(2) have "n \<le> 65535" by (auto simp: list_all_iff)
  with Number show ?thesis by (simp add: write_looked_up_def buf16_def writeUInt16BE_def)
qed

lemma Encoder_record_UnsupportedType:
  assumes "s \<noteq> Question" and "record_unsupported rec"
    and "encodeName enc (r_name rec) 0 True = Inr (name, enc1)"
    and "typeToNumber (r_type rec) = Inr ty" and "classToNumber (r_class rec) = Inr cl"
    and "(case r_ttl rec of Some x \<Rightarrow> x \<le> 4294967295 | None \<Rightarrow> True)"
  shows "Encoder_record enc s rec = Inl UnsupportedType"
proof -
  from assms(4) obtain t where t: "r_type rec = Some t"
    by (cases "r_type rec") (simp_all add: typeToNumber_def number_of_def)
  from assms(5) obtain c where c: "r_class rec = Some c"
    by (cases "r_class rec") (simp_all add: classToNumber_def number_of_def)
  from assms(2) t c have "kind c t \<notin> set supported_kinds"
    by (simp add: record_unsupported_def)
  then have refused: "\<And>e d. encode_rdata e (kind c t) d = Inl UnsupportedType"
    by (rule encode_rdata_unsupported)
  from number_of_written [OF assms(4) [unfolded typeToNumber_def TYPE_NUMBERS_def]
      table_numbers_bounded(1)]
  obtain tb where tb: "write_looked_up ty = Inr tb" by blast
  from number_of_written [OF assms(5) [unfolded classToNumber_def CLASS_NUMBERS_def]
      table_numbers_bounded(2)]
  obtain cb where cb: "write_looked_up cl = Inr cb" by blast
  from assms(6) obtain ttl where ttl: "buf32 (case r_ttl rec of Some t \<Rightarrow> t | None \<Rightarrow> 0) = Inr ttl"
    by (auto simp: buf32_def writeUInt32BE_def split: option.splits)
  from assms(1) assms(3) assms(4) assms(5) tb cb ttl refused t c show ?thesis
    by (simp add: Encoder_record_def then_do_def Let_def)
qed

text \<open>
  C5, as amended. For every message that holds, outside the question section, a record
  whose combination of class and type is not one of the supported ones, decoding fails
  (the record is refused, not kept with an opaque payload), and encoding fails; the
  encoder refuses the record itself with the unsupported-type error once its name, type,
  class and TTL have been written.
\<close>

theorem unsupported_record_refused:
  assumes "s \<noteq> Question"
  shows "(sections buf = Inr secs \<and> (s, raws) \<in> set secs \<and> raw \<in> set raws \<and> raw_unsupported raw
            \<longrightarrow> (\<exists>e. decode buf = Inl e))
       \<and> (rec \<in> set (section_of msg s) \<and> record_unsupported rec
            \<longrightarrow> (\<exists>e. encode (Instance msg) = Inl e))
       \<and> (record_unsupported rec \<and> encodeName enc (r_name rec) 0 True = Inr (name, enc1)
          \<and> typeToNumber (r_type rec) = Inr ty \<and> classToNumber (r_class rec) = Inr cl
          \<and> (case r_ttl rec of Some x \<Rightarrow> x \<le> 4294967295 | None \<Rightarrow> True)
            \<longrightarrow> Encoder_record enc s rec = Inl UnsupportedType)"
proof (intro conjI impI)
  assume "sections buf = Inr secs \<and> (s, raws) \<in> set secs \<and> raw \<in> set raws \<and> raw_unsupported raw"
  with assms show "\<exists>e. decode buf = Inl e"
    by (auto intro: decode_unsupported)
next
  assume a: "rec \<in> set (section_of msg s) \<and> record_unsupported rec"
  then have "r_edns rec = None" by (simp add: record_unsupported_def)
  moreover have "\<exists>e. Encoder_record enc s rec = Inl e" for enc
    using assms a by (simp add: Encoder_record_unsupported)
  ultimately show "\<exists>e. encode (Instance msg) = Inl e"
    using a by (auto intro: encode_fails)
next
  assume "record_unsupported rec \<and> encodeName enc (r_name rec) 0 True = Inr (name, enc1)
          \<and> typeToNumber (r_type rec) = Inr ty \<and> classToNumber (r_class rec) = Inr cl
          \<and> (case r_ttl rec of Some x \<Rightarrow> x \<le> 4294967295 | None \<Rightarrow> True)"
  with assms show "Encoder_record enc s rec = Inl UnsupportedType"
    by (auto intro: Encoder_record_UnsupportedType)
qed

lemma hinfo_sections:
  "sections hinfo_packet = Inr [(Question, []), (Answer, [hinfo_raw]), (Authority, []), (Additional, [])]"
  by (simp add: decode_eval table_eval cn_eval read_eval hinfo_packet_def hinfo_raw_def)

lemma hinfo_raw_unsupported: "raw_unsupported hinfo_raw"
  by (simp add: raw_unsupported_def table_eval hinfo_raw_def kind_def supported_kinds_def)

lemma hinfo_record_unsupported: "record_unsupported hinfo_record"
  by (simp add: record_unsupported_def hinfo_record_def kind_def supported_kinds_def)

theorem unsupported_record_refused_witness:
  "sections hinfo_packet = Inr [(Question, []), (Answer, [hinfo_raw]), (Authority, []), (Additional, [])]
   \<and> raw_unsupported hinfo_raw
   \<and> (\<exists>e. decode hinfo_packet = Inl e)
   \<and> record_unsupported hinfo_record
   \<and> (\<exists>e. encode (Instance hinfo_message) = Inl e)
   \<and> Encoder_record (new_Encoder\<lparr>e_position := 12\<rparr>) Answer hinfo_record = Inl UnsupportedType"
proof -
  have s: "Answer \<noteq> Question" by simp
  note inst = unsupported_record_refused [OF s, where buf = hinfo_packet and raws = "[hinfo_raw]"
      and raw = hinfo_raw and rec = hinfo_record and msg = hinfo_message
      and enc = "new_Encoder\<lparr>e_position := 12\<rparr>"
      and secs = "[(Question, []), (Answer, [hinfo_raw]), (Authority, []), (Additional, [])]"
      and name = "[1, 0x61, 0]"
      and ?enc1.0 = "new_Encoder\<lparr>e_position := 12, e_domains := [''a'' \<mapsto> 12]\<rparr>"
      and ty = "Number 13" and cl = "Number 1"]
  have mem: "hinfo_record \<in> set (section_of hinfo_message Answer)"
    by (simp add: section_of_def hinfo_message_def)
  have name: "encodeName (new_Encoder\<lparr>e_position := 12\<rparr>) (r_name hinfo_record) 0 True
              = Inr ([1, 0x61, 0], new_Encoder\<lparr>e_position := 12, e_domains := [''a'' \<mapsto> 12]\<rparr>)"
    by (simp add: name_eval new_Encoder_def hinfo_record_def)
  have ty: "typeToNumber (r_type hinfo_record) = Inr (Number 13)"
    and cl: "classToNumber (r_class hinfo_record) = Inr (Number 1)"
    by (simp_all add: hinfo_record_def label_numbers)
  have ttl: "(case r_ttl hinfo_record of Some x \<Rightarrow> x \<le> 4294967295 | None \<Rightarrow> True)"
    by (simp add: hinfo_record_def)
  from inst hinfo_sections hinfo_raw_unsupported have d: "\<exists>e. decode hinfo_packet = Inl e"
    by simp
  from inst mem hinfo_record_unsupported have e: "\<exists>e. encode (Instance hinfo_message) = Inl e"
    by blast
  from inst hinfo_record_unsupported name ty cl ttl
  have r: "Encoder_record (new_Encoder\<lparr>e_position := 12\<rparr>) Answer hinfo_record = Inl UnsupportedType"
    by blast
  from hinfo_sections hinfo_raw_unsupported hinfo_record_unsupported d e r show ?thesis
    by simp
qed

text \<open>
  The answer of \<open>hinfo_packet\<close> is a well-formed record of type HINFO and class IN. Its
  payload is not left as opaque octets: decoding the packet fails.
\<close>

theorem decode_unsupported_counterexample:
  "sections hinfo_packet = Inr [(Question, []), (Answer, [hinfo_raw]), (Authority, []), (Additional, [])]
   \<and> decode hinfo_packet = Inl UnknownRecord"
proof -
  have "decode hinfo_packet = Inl UnknownRecord"
    by (simp add: decode_eval table_eval cn_eval read_eval hinfo_packet_def)
  with hinfo_sections show ?thesis by simp
qed


section \<open>TCP framing\<close>

lemma drop_to_last: "xs \<noteq> [] \<Longrightarrow> drop (length xs - 1) xs = [last xs]"
  by (cases xs rule: rev_cases) simp_all

text \<open>
  C6. One \<open>data\<close> event dispatches at most one message. When the first chunk of a
  connection holds a complete length-prefixed message followed by more octets, such as a
  second length-prefixed query, the handler dispatches the first message only, whatever
  the dispatch does, and keeps of the octets that follow just the last one: \<open>expecting\<close>
  is reset to -1 before \<open>received = buf.length - expecting\<close> and
  \<open>buf.slice( expecting )\<close> are evaluated. The second query is not dispatched, neither
  by this event nor by a later one.
\<close>

theorem tcp_one_message_per_event:
  assumes "length message = unat hi * 256 + unat lo" and "rest \<noteq> []"
  shows "onData dispatch tcp_initial (hi # lo # message @ rest) =
     Some (then_do (dispatch message) (\<lambda>events.
             Inr (\<lparr>expecting = -1, received = int (length message + length rest) + 1,
                    chunks = [[last rest]]\<rparr>, events)))"
proof -
  have "int (length message) = int (unat hi * 256 + unat lo)"
    using assms(1) by simp
  then have len: "uint hi * 256 + uint lo = int (length message)"
    by simp
  have len': "unat hi * 256 + unat lo = length message"
    using assms(1) by simp
  have "0 < length rest"
    using assms(2) by simp
  then have "length message \<le> length message + length rest - Suc 0"
    by arith
  then have d: "drop (length message + length rest - Suc 0) message = []"
    "drop (length rest - Suc 0) rest = [last rest]"
    using drop_to_last [of rest] assms(2) by simp_all
  show ?thesis
    by (simp add: onData_def tcp_initial_def readUInt16BE_def then_do_def Let_def len len' d
        cong: sum.case_cong)
qed

theorem tcp_one_message_per_event_witness:
  "length txt_query_octets = unat (0 :: byte) * 256 + unat (29 :: byte)
   \<and> two_queries_chunk = 0 # 29 # txt_query_octets @ [0, 29] @ second_query_octets
   \<and> onData (\<lambda>message. Inr [message]) tcp_initial two_queries_chunk
       = Some (Inr (\<lparr>expecting = -1, received = 61, chunks = [[0x01]]\<rparr>, [txt_query_octets]))"
proof -
  have l: "length txt_query_octets = unat (0 :: byte) * 256 + unat (29 :: byte)"
    by (simp add: txt_query_octets_def)
  have c: "two_queries_chunk = 0 # 29 # txt_query_octets @ [0, 29] @ second_query_octets"
    by (simp add: two_queries_chunk_def)
  have n: "[0, 29] @ second_query_octets \<noteq> []"
    by simp
  have s: "int (length txt_query_octets + length ([0, 29] @ second_query_octets)) + 1 = 61"
    "last ([0, 29] @ second_query_octets) = 0x01"
    by (simp_all add: txt_query_octets_def second_query_octets_def)
  from tcp_one_message_per_event [OF l n, of "\<lambda>message. Inr [message]"]
  have "onData (\<lambda>message. Inr [message]) tcp_initial two_queries_chunk
       = Some (Inr (\<lparr>expecting = -1, received = 61, chunks = [[0x01]]\<rparr>, [txt_query_octets]))"
    unfolding s c by (simp add: then_do_def)
  with l c show ?thesis by simp
qed

text \<open>
  The second half of the claim holds for the first message of a connection: when the
  two octets of the length arrive in two events, the message is dispatched by the event
  that completes it.
\<close>

lemma tcp_length_split:
  assumes "length body = unat hi * 256 + unat lo"
  shows "onData dispatch tcp_initial [hi]
           = Some (Inr (\<lparr>expecting = -1, received = 1, chunks = [[hi]]\<rparr>, []))"
    and "onData dispatch \<lparr>expecting = -1, received = 1, chunks = [[hi]]\<rparr> (lo # body)
           = Some (then_do (dispatch body) (\<lambda>events.
               Inr (\<lparr>expecting = -1, received = int (length body) + 1,
                      chunks = [drop (length body - 1) body]\<rparr>, events)))"
proof -
  have "int (length body) = int (unat hi * 256 + unat lo)"
    using assms by simp
  then have len: "uint hi * 256 + uint lo = int (length body)"
    by simp
  have len': "unat hi * 256 + unat lo = length body"
    using assms by simp
  show "onData dispatch tcp_initial [hi]
           = Some (Inr (\<lparr>expecting = -1, received = 1, chunks = [[hi]]\<rparr>, []))"
    by (simp add: onData_def tcp_initial_def)
  show "onData dispatch \<lparr>expecting = -1, received = 1, chunks = [[hi]]\<rparr> (lo # body)
           = Some (then_do (dispatch body) (\<lambda>events.
               Inr (\<lparr>expecting = -1, received = int (length body) + 1,
                      chunks = [drop (length body - 1) body]\<rparr>, events)))"
    by (simp add: onData_def readUInt16BE_def then_do_def Let_def len len'
        cong: sum.case_cong)
qed

section \<open>EDNS validation\<close>

lemma encodeName_empty: "encodeName enc (Some []) 0 True = Inr ([0], enc)"
  by (simp add: encodeName_def strip_final_dot_def encodeName_loop.simps then_do_def)

lemma flags_out_of_range:
  assumes "e mod 256 \<noteq> 0"
  shows "shl24 e + int ((v mod 256) * 65536) + (if d then 32768 else 0) < 0
       \<or> shl24 e + int ((v mod 256) * 65536) + (if d then 32768 else 0) > 65535"
proof -
  have m: "1 \<le> e mod 256" "e mod 256 \<le> 255"
    using assms pos_mod_sign [of 256 e] pos_mod_bound [of 256 e] by linarith+
  have v: "int ((v mod 256) * 65536) \<le> 255 * 65536" "0 \<le> int ((v mod 256) * 65536)"
    using mod_less_divisor [of 256 v] by simp_all
  show ?thesis
  proof (cases "(e mod 256) * 16777216 \<ge> 2147483648")
    case True
    with m v show ?thesis by (simp add: shl24_def Let_def)
  next
    case False
    with m v show ?thesis by (simp add: shl24_def Let_def)
  qed
qed

lemma Encoder_ednsRecord_extended:
  assumes "extendedResult edns mod 256 \<noteq> 0"
  shows "Encoder_ednsRecord enc s edns = Inl JsRangeError"
proof -
  let ?f = "shl24 (extendedResult edns) + int ((version edns mod 256) * 65536)
            + (if flagDO edns then 32768 else 0)"
  from flags_out_of_range [OF assms] have "writeUInt16BE ?f = Inl JsRangeError"
    by (auto simp: writeUInt16BE_def)
  then show ?thesis
    by (auto simp: Encoder_ednsRecord_def encodeName_empty then_do_def Let_def buf16_def
        writeUInt16BE_def split: sum.splits)
qed

lemma encode_records_extended:
  assumes "r \<in> set rs" and "r_edns r = Some e" and "extendedResult e mod 256 \<noteq> 0"
  shows "\<exists>err. encode_records enc s rs = Inl err"
  using assms(1)
proof (induction rs arbitrary: enc)
  case Nil
  then show ?case by simp
next
  case (Cons a rs)
  show ?case
  proof (cases "a = r")
    case True
    with assms(2) Encoder_ednsRecord_extended [OF assms(3), of enc s] show ?thesis by simp
  next
    case False
    with Cons show ?thesis by (auto split: sum.splits option.splits)
  qed
qed

lemma toBinary_extended:
  assumes "r \<in> set (section_of msg s)" and "r_edns r = Some e"
    and "extendedResult e mod 256 \<noteq> 0"
  shows "\<exists>err. toBinary msg = Inl err"
proof -
  have "\<exists>err. encode_records enc s (section_of msg s) = Inl err" for enc
    using assms by (rule encode_records_extended)
  then have "\<exists>err. encode_sections enc msg SECTIONS = Inl err" for enc
    using all_sections by (rule encode_sections_fail [rotated])
  then obtain err where "encode_sections (new_Encoder\<lparr>e_position := 12\<rparr>) msg SECTIONS = Inl err"
    by blast
  then show ?thesis
    by (auto simp: toBinary_def Encoder_message_def then_do_def Let_def
        split: sum.splits option.splits)
qed

lemma wellFormedRecord_edns: "r_edns (wellFormedRecord n r) = r_edns r"
  by (simp add: wellFormedRecord_def Let_def)

lemma end_question_keeps:
  assumes "end_question srv it n that q = Inr that'"
  shows "m_responseCode that' = m_responseCode that"
    and "map r_edns (m_additional that') = map r_edns (m_additional that)"
  using assms
  by (auto simp: end_question_def then_do_def Let_def wellFormedRecord_edns comp_def
      split: option.splits sum.splits if_splits zone_value.splits rdata.splits)

lemma end_questions_keeps:
  assumes "end_questions srv it n that qs = Inr that'"
  shows "m_responseCode that' = m_responseCode that
       \<and> map r_edns (m_additional that') = map r_edns (m_additional that)"
  using assms
proof (induction qs arbitrary: that)
  case Nil
  then show ?case by simp
next
  case (Cons q qs)
  then obtain mid where m: "end_question srv it n that q = Inr mid"
    and r: "end_questions srv it n mid qs = Inr that'"
    by (auto split: sum.splits)
  from Cons.IH [OF r] end_question_keeps [OF m] show ?case by simp
qed

lemma update_first_edns_None:
  "update_first_edns x rs = None \<longleftrightarrow> list_all (\<lambda>r. r_edns r = None) rs"
  by (induction rs) (auto split: option.splits)

lemma update_first_edns_Some:
  "update_first_edns x rs = Some rs' \<Longrightarrow> \<exists>r e. r \<in> set rs' \<and> r_edns r = Some e \<and> extendedResult e = x"
proof (induction rs arbitrary: rs')
  case Nil
  then show ?case by simp
next
  case (Cons a rs)
  show ?case
  proof (cases "r_edns a")
    case None
    with Cons.prems obtain rs2 where u: "update_first_edns x rs = Some rs2" and e: "rs' = a # rs2"
      by auto
    from Cons.IH [OF u] e show ?thesis by auto
  next
    case (Some e)
    with Cons.prems have "rs' = a\<lparr>r_edns := Some (e\<lparr>extendedResult := x\<rparr>)\<rparr> # rs"
      by auto
    then show ?thesis by auto
  qed
qed

lemma set_first_edns_extended:
  assumes "\<not> list_all (\<lambda>r. r_edns r = None) (m_additional msg)"
  shows "\<exists>s r e. r \<in> set (section_of (set_first_edns msg x) s) \<and> r_edns r = Some e
           \<and> extendedResult e = x"
proof -
  from assms obtain ad where ad: "update_first_edns x (m_additional msg) = Some ad"
    using update_first_edns_None [of x "m_additional msg"] by auto
  show ?thesis
  proof (cases "update_first_edns x (m_question msg)")
    case (Some rs)
    from update_first_edns_Some [OF Some] obtain r e
      where "r \<in> set rs" "r_edns r = Some e" "extendedResult e = x" by blast
    with Some have "r \<in> set (section_of (set_first_edns msg x) Question) \<and> r_edns r = Some e
           \<and> extendedResult e = x"
      by (simp add: set_first_edns_def section_of_def)
    then show ?thesis by blast
  next
    case q: None
    show ?thesis
    proof (cases "update_first_edns x (m_answer msg)")
      case (Some rs)
      from update_first_edns_Some [OF Some] obtain r e
        where "r \<in> set rs" "r_edns r = Some e" "extendedResult e = x" by blast
      with Some q have "r \<in> set (section_of (set_first_edns msg x) Answer) \<and> r_edns r = Some e
           \<and> extendedResult e = x"
        by (simp add: set_first_edns_def section_of_def)
      then show ?thesis by blast
    next
      case a: None
      show ?thesis
      proof (cases "update_first_edns x (m_authority msg)")
        case (Some rs)
        from update_first_edns_Some [OF Some] obtain r e
          where "r \<in> set rs" "r_edns r = Some e" "extendedResult e = x" by blast
        with Some q a have "r \<in> set (section_of (set_first_edns msg x) Authority)
             \<and> r_edns r = Some e \<and> extendedResult e = x"
          by (simp add: set_first_edns_def section_of_def)
        then show ?thesis by blast
      next
        case n: None
        from update_first_edns_Some [OF ad] obtain r e
          where "r \<in> set ad" "r_edns r = Some e" "extendedResult e = x" by blast
        with ad q a n have "r \<in> set (section_of (set_first_edns msg x) Additional)
             \<and> r_edns r = Some e \<and> extendedResult e = x"
          by (simp add: set_first_edns_def section_of_def)
        then show ?thesis by blast
      qed
    qed
  qed
qed

lemma findEDNSRecords_additional:
  assumes "\<not> list_all (\<lambda>r. r_edns r = None) (m_additional msg)"
  shows "findEDNSRecords msg \<noteq> []"
  using assms
  by (auto simp: findEDNSRecords_def SECTIONS_def section_of_def filter_empty_conv list_all_iff)

lemma edns_free_map:
  "list_all (\<lambda>r. r_edns r = None) rs \<longleftrightarrow> list_all (\<lambda>e. e = None) (map r_edns rs)"
  by (induction rs) simp_all

lemma end_final_extended:
  assumes rc: "m_responseCode (rs_msg this) = Some 16"
    and ad: "\<not> list_all (\<lambda>r. r_edns r = None) (m_additional (rs_msg this))"
  shows "(\<exists>err. end_final srv this NoValue = Inl err)
       \<or> (\<exists>a b. end_final srv this NoValue = Inr (a, b, None))"
proof -
  let ?that1 = "(rs_msg this)\<lparr>m_recursionAvailable := False, m_authoritative := True\<rparr>"
  show ?thesis
  proof (cases "end_questions srv None (length (m_question ?that1)) ?that1 (m_question ?that1)")
    case (Inl err)
    then have "end_final srv this NoValue = Inl err"
      by (simp add: end_final_def end_prepare_def then_do_def Let_def)
    then show ?thesis by blast
  next
    case (Inr that)
    from end_questions_keeps [OF Inr] rc
    have rc': "m_responseCode that = Some 16"
      and same: "map r_edns (m_additional that) = map r_edns (m_additional (rs_msg this))"
      by simp_all
    have "list_all (\<lambda>r. r_edns r = None) (m_additional that)
        \<longleftrightarrow> list_all (\<lambda>r. r_edns r = None) (m_additional (rs_msg this))"
      unfolding edns_free_map same ..
    with ad have ad': "\<not> list_all (\<lambda>r. r_edns r = None) (m_additional that)"
      by simp
    from ad' have ne: "findEDNSRecords that \<noteq> []"
      by (rule findEDNSRecords_additional)
    from set_first_edns_extended [OF ad', of 1] obtain s r e
      where "r \<in> set (section_of (set_first_edns that 1) s)" "r_edns r = Some e"
        "extendedResult e = 1"
      by blast
    then have "\<exists>err. toBinary (set_first_edns that 1) = Inl err"
      using toBinary_extended [of r "set_first_edns that 1" s e] by simp
    then obtain err where tb: "toBinary (set_first_edns that 1) = Inl err"
      by blast
    have "end_final srv this NoValue = Inl Rejected
        \<or> end_final srv this NoValue = Inl err
        \<or> end_final srv this NoValue = Inr (set_first_edns that 1, set_first_edns that 1, None)"
      using Inr rc' ne tb
      by (simp add: end_final_def end_prepare_def then_do_def Let_def)
    then show ?thesis by blast
  qed
qed

text \<open>
  C7. No response with BADVERS is transmitted. Answering an invalid EDNS request with
  BADVERS either raises an error or asks the socket to send no payload: the response
  holds its OPT record with the extended result code 1, and the encoder cannot write an
  OPT record whose extended result code is not 0, because it writes the flags, which hold
  the code in their bits 24 to 31, as an unsigned 16-bit number (a \<open>RangeError\<close>). And the
  validation is not reached: whenever a request holds exactly one OPT record and holds it
  in the additional section, constructing the response for it raises a \<open>TypeError\<close>, so
  nothing is transmitted (and no request event is emitted).
\<close>

theorem badvers_not_transmitted:
  "(respondOnInvalidEDNS t srv response requestorEDNS RCODE_BADVERS = Inr effects
      \<longrightarrow> effects = [] \<or> effects = [ConnectionEnd None])
   \<and> (extendedResult edns mod 256 \<noteq> 0
      \<longrightarrow> Encoder_ednsRecord enc s edns = Inl JsRangeError)
   \<and> (findEDNSRecords request = [(Additional, r)]
      \<longrightarrow> handle_message t srv request = Inl JsTypeError)"
proof (intro conjI impI)
  assume a: "respondOnInvalidEDNS t srv response requestorEDNS RCODE_BADVERS = Inr effects"
  let ?r = "response\<lparr>rs_msg := (addEDNSReply (rs_msg response) requestorEDNS)
                                          \<lparr>m_responseCode := Some RCODE_BADVERS\<rparr>\<rparr>"
  have rc: "m_responseCode (rs_msg ?r) = Some 16"
    by (simp add: RCODE_BADVERS_def)
  have ad: "\<not> list_all (\<lambda>r. r_edns r = None) (m_additional (rs_msg ?r))"
    by (simp add: addEDNSReply_def edns_reply_def)
  from end_final_extended [OF rc ad, of srv]
  consider err where "end_final srv ?r NoValue = Inl err"
    | x y where "end_final srv ?r NoValue = Inr (x, y, None)"
    by blast
  then show "effects = [] \<or> effects = [ConnectionEnd None]"
  proof cases
    case 1
    with a show ?thesis
      by (cases err) (simp_all add: respondOnInvalidEDNS_def DNSResponse_end_def then_do_def Let_def)
  next
    case 2
    with a show ?thesis
      by (cases t) (auto simp: respondOnInvalidEDNS_def DNSResponse_end_def then_do_def Let_def
          socket_send_def split: sum.splits error.splits)
  qed
next
  assume "extendedResult edns mod 256 \<noteq> 0"
  then show "Encoder_ednsRecord enc s edns = Inl JsRangeError"
    by (rule Encoder_ednsRecord_extended)
next
  assume "findEDNSRecords request = [(Additional, r)]"
  then show "handle_message t srv request = Inl JsTypeError"
    by (simp add: handle_message_def DNSResponse_ctor_def then_do_def)
qed

lemma encode_badvers_response: "encode (Instance badvers_response) = Inl JsRangeError"
  by (simp add: message_eval write_eval encodeName_empty Encoder_ednsRecord_def shl24_def
      badvers_response_def badvers_edns_def then_do_def Let_def)

lemma respond_opt_response:
  "respondOnInvalidEDNS UDP example_server opt_response (r_edns opt_version1) RCODE_BADVERS
     = Inr []"
proof -
  have z: "findZoneForName example_server ''example.com'' = Inr (Some (Zone example_soa))"
    by (simp add: findZoneForName.simps [of _ "''example.com''"] label_eval example_server_def)
  show ?thesis
    by (simp add: respondOnInvalidEDNS_def DNSResponse_end_def end_final_def end_prepare_def
        end_question_def z kind_of_def kind_def findEDNSRecords_def SECTIONS_def section_of_def
        addEDNSReply_def edns_reply_def wellFormedRecord_def RCODE_BADVERS_def
        opt_response_def opt_request_def opt_version1_def example_soa_def then_do_def Let_def)
qed

theorem badvers_not_transmitted_witness:
  "findEDNSRecords opt_request = [(Additional, opt_version1)]
   \<and> map_option version (r_edns opt_version1) = Some 1
   \<and> handle_message UDP example_server opt_request = Inl JsTypeError
   \<and> handle_message TCP example_server opt_request = Inl JsTypeError
   \<and> respondOnInvalidEDNS UDP example_server opt_response (r_edns opt_version1) RCODE_BADVERS
       = Inr []
   \<and> extendedResult badvers_edns mod 256 = 1
   \<and> Encoder_ednsRecord (new_Encoder\<lparr>e_position := 12\<rparr>) Additional badvers_edns = Inl JsRangeError
   \<and> encode (Instance badvers_response) = Inl JsRangeError"
proof -
  have f: "findEDNSRecords opt_request = [(Additional, opt_version1)]"
    by (simp add: findEDNSRecords_def SECTIONS_def section_of_def opt_request_def opt_version1_def)
  have v: "map_option version (r_edns opt_version1) = Some 1"
    by (simp add: opt_version1_def)
  have x: "extendedResult badvers_edns mod 256 = 1" "extendedResult badvers_edns mod 256 \<noteq> 0"
    by (simp_all add: badvers_edns_def)
  note u = badvers_not_transmitted [where request = opt_request and r = opt_version1
      and t = UDP and srv = example_server and edns = badvers_edns
      and enc = "new_Encoder\<lparr>e_position := 12\<rparr>" and s = Additional
      and response = opt_response and requestorEDNS = "r_edns opt_version1" and effects = "[]"]
  note c = badvers_not_transmitted [where request = opt_request and r = opt_version1
      and t = TCP and srv = example_server and edns = badvers_edns
      and enc = "new_Encoder\<lparr>e_position := 12\<rparr>" and s = Additional
      and response = opt_response and requestorEDNS = "r_edns opt_version1" and effects = "[]"]
  from u f x have a: "handle_message UDP example_server opt_request = Inl JsTypeError"
    and e: "Encoder_ednsRecord (new_Encoder\<lparr>e_position := 12\<rparr>) Additional badvers_edns
            = Inl JsRangeError"
    by blast+
  from c f have b: "handle_message TCP example_server opt_request = Inl JsTypeError"
    by blast
  from f v a b x(1) e encode_badvers_response respond_opt_response show ?thesis by simp
qed

text \<open>
  The decoder of the sources does not get as far: \<open>Decode.sections\<close> leaves the class of
  an OPT record undefined, and \<open>DNSRecord.parse\<close> passes it to \<open>classToLabel\<close>.
\<close>

lemma decode_opt_request: "decode opt_request_octets = Inl InvalidRecordClass"
  by (simp add: decode_eval table_eval cn_eval read_eval extractEDNSOptions.simps
      opt_request_octets_def)

section \<open>The end of a response\<close>

text \<open>
  When \<open>end\<close> is not given a replacement object, there is one response, and its payload
  is passed to the socket exactly when its answer or its authority section is not empty;
  without a payload a UDP socket sends nothing and a TCP connection is ended without data.
\<close>

lemma end_final_same:
  assumes "end_final srv this v = Inr (this', that, payload)"
    and "\<And>body. v \<noteq> Replacement body"
  shows "this' = that" and "payload = None \<longleftrightarrow> m_answer that = [] \<and> m_authority that = []"
  using assms
  by (cases v;
      auto simp: end_final_def end_prepare_def then_do_def Let_def
           split: sum.splits if_splits)+

lemma socket_send_nothing:
  "socket_send UDP None = Inr []" "socket_send TCP None = Inr [ConnectionEnd None]"
  by (simp_all add: socket_send_def)

text \<open>
  When \<open>end\<close> is given an object, the fresh response has no answer and no authority
  record (its constructor empties the sections), and a payload is passed to the socket
  exactly when the authority section of the response \<open>end\<close> was called on is not empty.
\<close>

lemma end_final_replacement:
  assumes "end_final srv this (Replacement (DNSMessage_of_object body)) = Inr (this', that, payload)"
  shows "m_answer that = []" and "m_authority that = []"
    and "payload = None \<longleftrightarrow> m_authority this' = []"
proof -
  have none: "findEDNSRecords (DNSMessage_of_object body) = []"
    by (simp add: findEDNSRecords_def DNSMessage_of_object_def SECTIONS_def section_of_def)
  have ctor: "DNSResponse_ctor (DNSMessage_of_object body)
      = Inr \<lparr>rs_msg = (DNSMessage_of_object body)\<lparr>m_type := Some ''response''\<rparr>,
             rs_requestorEDNS = None\<rparr>"
    by (simp add: DNSResponse_ctor_def none)
  have q: "m_question (DNSMessage_of_object body) = []" "m_answer (DNSMessage_of_object body) = []"
    "m_authority (DNSMessage_of_object body) = []"
    by (simp_all add: DNSMessage_of_object_def)
  from assms show "m_answer that = []" and "m_authority that = []"
    and "payload = None \<longleftrightarrow> m_authority this' = []"
    by (auto simp: end_final_def end_prepare_def ctor then_do_def Let_def q
        split: if_splits sum.splits)
qed

text \<open>
  C9. The response that is transmitted can have an empty answer section and an empty
  authority section. When \<open>end\<close> is given an object, it adopts the object as a fresh
  response \<open>that\<close> and transmits that one, but tests the authority section of the
  response it was called on: whenever that section is not empty (and the response it was
  called on needs no OPT record), \<open>end\<close> serializes the fresh response for the socket,
  although its answer and authority sections are empty.
\<close>

theorem end_replacement_transmitted:
  assumes "rs_requestorEDNS this = None"
    and "case m_responseCode (rs_msg this) of Some rc \<Rightarrow> rc \<le> 15 | None \<Rightarrow> True"
    and "m_authority (rs_msg this) \<noteq> []"
    and "that = (DNSMessage_of_object body)\<lparr>m_type := Some ''response'',
                   m_recursionAvailable := False, m_authoritative := True\<rparr>"
  shows "end_final srv this (Replacement (DNSMessage_of_object body))
           = then_do (toBinary that) (\<lambda>payload. Inr (rs_msg this, that, Some payload))
         \<and> m_answer that = [] \<and> m_authority that = []"
proof -
  have none: "findEDNSRecords (DNSMessage_of_object body) = []"
    by (simp add: findEDNSRecords_def DNSMessage_of_object_def SECTIONS_def section_of_def)
  have ctor: "DNSResponse_ctor (DNSMessage_of_object body)
      = Inr \<lparr>rs_msg = (DNSMessage_of_object body)\<lparr>m_type := Some ''response''\<rparr>,
             rs_requestorEDNS = None\<rparr>"
    by (simp add: DNSResponse_ctor_def none)
  have q: "m_question (DNSMessage_of_object body) = []"
    by (simp add: DNSMessage_of_object_def)
  have ext: "\<not> (case m_responseCode (rs_msg this) of Some r \<Rightarrow> r > 15 | None \<Rightarrow> False)"
    using assms(2) by (simp split: option.splits)
  have empty: "m_answer that = []" "m_authority that = []"
    using assms(4) by (simp_all add: DNSMessage_of_object_def)
  have "end_final srv this (Replacement (DNSMessage_of_object body))
           = then_do (toBinary that) (\<lambda>payload. Inr (rs_msg this, that, Some payload))"
    using assms(1) assms(3) ext empty
    by (simp add: end_final_def end_prepare_def ctor then_do_def Let_def q assms(4))
  with empty show ?thesis by simp
qed

theorem end_replacement_transmitted_witness:
  "m_authority (rs_msg response_with_authority) = [example_soa]
   \<and> m_answer (DNSMessage_of_object replacement_object) = []
   \<and> m_authority (DNSMessage_of_object replacement_object) = []
   \<and> DNSResponse_end UDP example_server response_with_authority
       (Replacement (DNSMessage_of_object replacement_object))
     = Inr [Datagram [0, 1, 0x84, 0, 0, 0, 0, 0, 0, 0, 0, 0]]
   \<and> DNSResponse_end TCP example_server response_with_authority
       (Replacement (DNSMessage_of_object replacement_object))
     = Inr [ConnectionEnd (Some [0, 12, 0, 1, 0x84, 0, 0, 0, 0, 0, 0, 0, 0, 0])]"
proof -
  let ?that = "(DNSMessage_of_object replacement_object)\<lparr>m_type := Some ''response'',
                   m_recursionAvailable := False, m_authoritative := True\<rparr>"
  have b: "toBinary ?that = Inr [0, 1, 0x84, 0, 0, 0, 0, 0, 0, 0, 0, 0]"
    by (simp add: message_eval write_eval then_do_def Let_def replacement_object_def)
  have h: "rs_requestorEDNS response_with_authority = None"
    "case m_responseCode (rs_msg response_with_authority) of Some rc \<Rightarrow> rc \<le> 15 | None \<Rightarrow> True"
    "m_authority (rs_msg response_with_authority) \<noteq> []"
    by (simp_all add: response_with_authority_def)
  from end_replacement_transmitted [OF h refl, where body = replacement_object
      and srv = example_server] b
  have e: "end_final example_server response_with_authority
          (Replacement (DNSMessage_of_object replacement_object))
        = Inr (rs_msg response_with_authority, ?that,
               Some [0, 1, 0x84, 0, 0, 0, 0, 0, 0, 0, 0, 0])"
    by (simp add: then_do_def)
  have u: "DNSResponse_end UDP example_server response_with_authority
       (Replacement (DNSMessage_of_object replacement_object))
     = Inr [Datagram [0, 1, 0x84, 0, 0, 0, 0, 0, 0, 0, 0, 0]]"
    by (simp add: DNSResponse_end_def e then_do_def socket_send_def)
  have c: "DNSResponse_end TCP example_server response_with_authority
       (Replacement (DNSMessage_of_object replacement_object))
     = Inr [ConnectionEnd (Some [0, 12, 0, 1, 0x84, 0, 0, 0, 0, 0, 0, 0, 0, 0])]"
    by (simp add: DNSResponse_end_def e then_do_def socket_send_def)
  have a: "m_authority (rs_msg response_with_authority) = [example_soa]"
    by (simp add: response_with_authority_def)
  have m: "m_answer (DNSMessage_of_object replacement_object) = []"
    "m_authority (DNSMessage_of_object replacement_object) = []"
    by (simp_all add: DNSMessage_of_object_def)
  from a m u c show ?thesis by simp
qed

section \<open>Pointer errors in whole messages\<close>

text \<open>
  The two packets with a pointer beyond the message and with two pointers to each other,
  decoded as whole messages: the error of \<open>compileName\<close> is the error of \<open>decode\<close>.
\<close>

lemma decode_pointer_errors:
  "decode far_packet = Inl InvalidPointer" "decode cycle_packet = Inl PointerCycle"
  by (simp_all add: decode_eval table_eval cn_eval read_eval far_packet_def cycle_packet_def)

end
